theory Spec2Isabelle
  imports Complex_Main
begin

section \<open>Data model\<close>

text \<open>
  The rows of the Prisma schema that the booking endpoint touches. A \<open>TripInstance\<close> is
  read with \<open>include: { trip: ... }\<close>, so the row carries its \<open>Trip\<close> (the endpoint never
  writes a \<open>Trip\<close>). Row identifiers generated by the store and the \<open>createdAt\<close>/\<open>updatedAt\<close>
  stamps take no part in the endpoint's decisions and are left out. \<open>INTEGER\<close> columns are
  \<open>int\<close>; the \<open>REAL\<close> price is read as a real number.
\<close>

record trip =
  basePrice :: real
  capacity :: int

record tripInstance =
  trip :: trip
  availableSeats :: int
  version :: int
  status :: string

record passenger =
  firstName :: string
  lastName :: string
  email :: "string option"
  phone :: "string option"

record booking =
  tripInstanceId :: string
  bookingRef :: string
  bookingStatus :: string
  totalPrice :: real
  contactEmail :: string
  contactPhone :: string
  passengers :: "passenger list"
  cancelledAt :: "nat option"

record db =
  tripInstances :: "string \<rightharpoonup> tripInstance"
  bookings :: "booking list"

text \<open>
  A thrown JavaScript error: the name of its constructor and its message.
  \<open>new Error(m)\<close> is \<open>JsError ''Error'' m\<close>.
\<close>

datatype error = JsError (errorName: string) (message: string)

definition Error :: "string \<Rightarrow> error" where
  "Error m = JsError ''Error'' m"

text \<open>The calls the endpoint makes on the store, in the order it makes them.\<close>

datatype query =
    FindUniqueTripInstance string
  | UpdateManyTripInstance string int
  | FindUniqueBooking string
  | CreateBooking string

text \<open>
  What the endpoint runs on: the environment variable it tests, the values that successive
  calls of \<open>Math.random()\<close> return, the e-mail test of the validation library, and the
  message of the store's unique-constraint error.
\<close>

record env =
  DATABASE_URL :: "string option"
  random :: "nat \<Rightarrow> real"
  isEmail :: "string \<Rightarrow> bool"
  uniqueConstraintMessage :: string

text \<open>
  The state an execution of the endpoint acts on: the committed database, the number of
  \<open>Math.random()\<close> calls made so far, the delays passed to \<open>setTimeout\<close>, the store calls
  made, and the commits of other requests that land between a transaction's read of the
  trip instance and its conditional write (one entry per transaction that gets that far).
\<close>

record world =
  db :: db
  calls :: nat
  timeouts :: "nat list"
  queries :: "query list"
  writers :: "(db \<Rightarrow> db) list"

section \<open>Reference generator\<close>

definition chars :: string where
  "chars = ''ABCDEFGHJKLMNPQRSTUVWXYZ23456789''"

text \<open>\<open>String.prototype.charAt\<close>: the empty string outside the range.\<close>

definition charAt :: "string \<Rightarrow> int \<Rightarrow> string" where
  "charAt s i = (if 0 \<le> i \<and> i < int (length s) then [s ! nat i] else [])"

text \<open>
  \<open>Math.random()\<close> takes the next value of the environment. The generator multiplies it
  by the length of the alphabet, 32, a power of two, so the product in double precision
  is the product of the reals.
\<close>

definition Math_random :: "env \<Rightarrow> world \<Rightarrow> real \<times> world" where
  "Math_random e w = (random e (calls w), w\<lparr>calls := Suc (calls w)\<rparr>)"

function generateBookingRef_loop :: "env \<Rightarrow> nat \<Rightarrow> string \<Rightarrow> world \<Rightarrow> string \<times> world" where
  "generateBookingRef_loop e i ref w =
     (if i < 6 then
        (case Math_random e w of
           (r, w') \<Rightarrow>
             generateBookingRef_loop e (i + 1)
               (ref @ charAt chars \<lfloor>r * real (length chars)\<rfloor>) w')
      else (ref, w))"
  by pat_completeness auto
termination
  by (relation "measure (\<lambda>(e, i, ref, w). 6 - i)") auto

declare generateBookingRef_loop.simps [simp del]

definition generateBookingRef :: "env \<Rightarrow> world \<Rightarrow> string \<times> world" where
  "generateBookingRef e w = generateBookingRef_loop e 0 [] w"

section \<open>Store calls\<close>

text \<open>
  Each call logs itself. \<open>updateMany\<close> with \<open>where: { id, version }\<close> matches at most one
  row, the primary key being \<open>id\<close>, and returns the number of rows it changed.
  \<open>booking.create\<close> fails on the unique index \<open>Booking_bookingRef_key\<close>.
\<close>

definition logQuery :: "query \<Rightarrow> world \<Rightarrow> world" where
  "logQuery q w = w\<lparr>queries := queries w @ [q]\<rparr>"

definition findUniqueTripInstance :: "string \<Rightarrow> world \<Rightarrow> tripInstance option \<times> world" where
  "findUniqueTripInstance i w = (tripInstances (db w) i, logQuery (FindUniqueTripInstance i) w)"

definition updateManyTripInstance ::
  "string \<Rightarrow> int \<Rightarrow> int \<Rightarrow> int \<Rightarrow> world \<Rightarrow> nat \<times> world" where
  "updateManyTripInstance i v seats' v' w =
     (let w1 = logQuery (UpdateManyTripInstance i v) w in
      case tripInstances (db w) i of
        None \<Rightarrow> (0, w1)
      | Some row \<Rightarrow>
          if version row = v then
            (1, w1\<lparr>db := (db w)\<lparr>tripInstances :=
                   (tripInstances (db w))(i \<mapsto> row\<lparr>availableSeats := seats', version := v'\<rparr>)\<rparr>\<rparr>)
          else (0, w1))"

definition findUniqueBooking :: "string \<Rightarrow> world \<Rightarrow> booking option \<times> world" where
  "findUniqueBooking r w =
     (find (\<lambda>b. bookingRef b = r) (bookings (db w)), logQuery (FindUniqueBooking r) w)"

definition createBooking :: "env \<Rightarrow> booking \<Rightarrow> world \<Rightarrow> (error + booking) \<times> world" where
  "createBooking e b w =
     (let w1 = logQuery (CreateBooking (bookingRef b)) w in
      if bookingRef b \<in> set (map bookingRef (bookings (db w))) then
        (Inl (JsError ''PrismaClientKnownRequestError'' (uniqueConstraintMessage e)), w1)
      else (Inr b, w1\<lparr>db := (db w)\<lparr>bookings := bookings (db w) @ [b]\<rparr>\<rparr>))"

definition setTimeout :: "nat \<Rightarrow> world \<Rightarrow> world" where
  "setTimeout ms w = w\<lparr>timeouts := timeouts w @ [ms]\<rparr>"

text \<open>The next commit of another request lands.\<close>

definition otherWritersCommit :: "world \<Rightarrow> world" where
  "otherWritersCommit w =
     (case writers w of [] \<Rightarrow> w | f # fs \<Rightarrow> w\<lparr>db := f (db w), writers := fs\<rparr>)"

section \<open>The booking transaction\<close>

text \<open>
  The validated request (\<open>BookingRequest\<close>); its fields carry the prefix \<open>req\<close> to keep
  them apart from the columns of \<open>Booking\<close>.
\<close>

record bookingRequest =
  reqTripInstanceId :: string
  reqPassengers :: "passenger list"
  reqContactEmail :: string
  reqContactPhone :: string

text \<open>Decimal rendering of a number in a template literal.\<close>

fun digits :: "nat \<Rightarrow> string" where
  "digits n =
     (if n < 10 then [''0123456789'' ! n]
      else digits (n div 10) @ [''0123456789'' ! (n mod 10)])"

definition String_of_int :: "int \<Rightarrow> string" where
  "String_of_int i = (if i < 0 then ''-'' @ digits (nat (- i)) else digits (nat i))"

text \<open>\<open>x || null\<close> on an optional string.\<close>

definition orNull :: "string option \<Rightarrow> string option" where
  "orNull x = (case x of None \<Rightarrow> None | Some s \<Rightarrow> if s = [] then None else Some s)"

text \<open>The read of the trip instance and the three checks on it.\<close>

definition readAndCheck :: "bookingRequest \<Rightarrow> world \<Rightarrow> (error + tripInstance) \<times> world" where
  "readAndCheck req w =
     (case findUniqueTripInstance (reqTripInstanceId req) w of
        (None, w1) \<Rightarrow> (Inl (Error ''Trip not found''), w1)
      | (Some ti, w1) \<Rightarrow>
          if status ti \<noteq> ''active'' then (Inl (Error ''Trip is no longer available''), w1)
          else if availableSeats ti < int (length (reqPassengers req)) then
            (Inl (Error (''Only '' @ String_of_int (availableSeats ti) @ '' seats available'')), w1)
          else (Inr ti, w1))"

text \<open>The loop that looks for a reference no booking has.\<close>

function uniqueRef_loop :: "env \<Rightarrow> nat \<Rightarrow> string \<Rightarrow> world \<Rightarrow> string \<times> world" where
  "uniqueRef_loop e attempts ref w =
     (if attempts < 10 then
        (case findUniqueBooking ref w of
           (None, w1) \<Rightarrow> (ref, w1)
         | (Some existing, w1) \<Rightarrow>
             (case generateBookingRef e w1 of
                (ref', w2) \<Rightarrow> uniqueRef_loop e (attempts + 1) ref' w2))
      else (ref, w))"
  by pat_completeness auto
termination
  by (relation "measure (\<lambda>(e, attempts, ref, w). 10 - attempts)") auto

declare uniqueRef_loop.simps [simp del]

text \<open>
  The \<open>data\<close> of the \<open>booking.create\<close> call, the price included. The price is the product
  in the reals; the code multiplies double-precision numbers, and its product can differ
  from this one in the last place (\<open>0.1 * 3\<close>). Nothing below depends on the price.
\<close>

definition bookingData :: "bookingRequest \<Rightarrow> tripInstance \<Rightarrow> string \<Rightarrow> booking" where
  "bookingData req ti ref =
     \<lparr>tripInstanceId = reqTripInstanceId req,
      bookingRef = ref,
      bookingStatus = ''confirmed'',
      totalPrice = basePrice (trip ti) * real (length (reqPassengers req)),
      contactEmail = reqContactEmail req,
      contactPhone = reqContactPhone req,
      passengers =
        map (\<lambda>p. \<lparr>firstName = firstName p, lastName = lastName p,
                  email = orNull (email p), phone = orNull (phone p)\<rparr>)
          (reqPassengers req),
      cancelledAt = None\<rparr>"

text \<open>
  The conditional write (\<open>updateMany\<close> on the identifier and the version read) and what
  follows it: the reference and the booking with its passengers. The state returned with
  an error is the transaction's own view at the throw, before the rollback.
\<close>

definition conditionalWrite :: "bookingRequest \<Rightarrow> tripInstance \<Rightarrow> world \<Rightarrow> nat \<times> world" where
  "conditionalWrite req ti w =
     updateManyTripInstance (reqTripInstanceId req) (version ti)
       (availableSeats ti - int (length (reqPassengers req))) (version ti + 1) w"

definition reserveAndCreate ::
  "env \<Rightarrow> bookingRequest \<Rightarrow> tripInstance \<Rightarrow> world \<Rightarrow> (error + booking) \<times> world" where
  "reserveAndCreate e req ti w =
     (case conditionalWrite req ti w of
        (count, w1) \<Rightarrow>
          if count = 0 then (Inl (Error ''CONCURRENT_MODIFICATION''), w1)
          else
            (case generateBookingRef e w1 of
               (ref0, w2) \<Rightarrow>
                 (case uniqueRef_loop e 0 ref0 w2 of
                    (ref, w3) \<Rightarrow> createBooking e (bookingData req ti ref) w3)))"

text \<open>
  \<open>prisma.$transaction\<close>: the body's writes are committed when it returns and discarded
  when it throws. Other requests commit between its read and its conditional write.
\<close>

definition transaction :: "env \<Rightarrow> bookingRequest \<Rightarrow> world \<Rightarrow> (error + booking) \<times> world" where
  "transaction e req w =
     (case readAndCheck req w of
        (Inl err, w1) \<Rightarrow> (Inl err, w1)
      | (Inr ti, w1) \<Rightarrow>
          (let w2 = otherWritersCommit w1 in
           case reserveAndCreate e req ti w2 of
             (Inl err, w3) \<Rightarrow> (Inl err, w3\<lparr>db := db w2\<rparr>)
           | (Inr b, w3) \<Rightarrow> (Inr b, w3)))"

section \<open>The retry loop\<close>

function bookingLoop ::
  "env \<Rightarrow> bookingRequest \<Rightarrow> nat \<Rightarrow> booking option \<Rightarrow> world \<Rightarrow> (error + booking option) \<times> world" where
  "bookingLoop e req retries booking w =
     (if retries > 0 \<and> booking = None then
        (case transaction e req w of
           (Inr b, w1) \<Rightarrow> (Inr (Some b), w1)
         | (Inl err, w1) \<Rightarrow>
             if message err = ''CONCURRENT_MODIFICATION'' \<and> retries > 1 then
               bookingLoop e req (retries - 1) booking (setTimeout 100 w1)
             else (Inl err, w1))
      else (Inr booking, w))"
  by pat_completeness auto
termination
  by (relation "measure (\<lambda>(e, req, retries, booking, w). retries)") auto

declare bookingLoop.simps [simp del]

section \<open>Request validation\<close>

text \<open>
  A parsed JSON body. A key that an object lacks reads as \<open>undefined\<close> (\<open>None\<close> below);
  of a repeated key the last occurrence counts.
\<close>

datatype json =
    JNull
  | JBool bool
  | JNumber real
  | JString string
  | JArray "json list"
  | JObject "(string \<times> json) list"

datatype pathItem = Key string | Index nat

text \<open>
  A validation issue: its code, its path and, where the schema gives one, its message.
\<close>

datatype zodIssue =
    invalid_type "pathItem list"
  | too_small "pathItem list" string
  | invalid_string "pathItem list" string
  | invalid_union "pathItem list"

definition property :: "(string \<times> json) list \<Rightarrow> string \<Rightarrow> json option" where
  "property kvs k = map_of (rev kvs) k"

definition issuesOf :: "zodIssue list + 'a \<Rightarrow> zodIssue list" where
  "issuesOf r = (case r of Inl is \<Rightarrow> is | Inr _ \<Rightarrow> [])"

text \<open>\<open>z.string().min(1, msg)\<close>\<close>

definition stringMin1 :: "string \<Rightarrow> pathItem list \<Rightarrow> json option \<Rightarrow> zodIssue list + string" where
  "stringMin1 msg path v =
     (case v of
        Some (JString s) \<Rightarrow> if length s < 1 then Inl [too_small path msg] else Inr s
      | _ \<Rightarrow> Inl [invalid_type path])"

text \<open>\<open>z.string().email(msg)\<close>\<close>

definition stringEmail ::
  "env \<Rightarrow> string \<Rightarrow> pathItem list \<Rightarrow> json option \<Rightarrow> zodIssue list + string" where
  "stringEmail e msg path v =
     (case v of
        Some (JString s) \<Rightarrow> if isEmail e s then Inr s else Inl [invalid_string path msg]
      | _ \<Rightarrow> Inl [invalid_type path])"

text \<open>
  \<open>z.string().email('Invalid email').optional().or(z.literal(''))\<close>. A string that is
  neither an e-mail address nor empty passes the first branch's type test and fails its
  e-mail test, and the union reports that branch's issue; a value that is no string fails
  both branches outright.
\<close>

definition optionalEmail ::
  "env \<Rightarrow> pathItem list \<Rightarrow> json option \<Rightarrow> zodIssue list + string option" where
  "optionalEmail e path v =
     (case v of
        None \<Rightarrow> Inr None
      | Some (JString s) \<Rightarrow>
          if isEmail e s \<or> s = [] then Inr (Some s)
          else Inl [invalid_string path ''Invalid email'']
      | _ \<Rightarrow> Inl [invalid_union path])"

text \<open>\<open>z.string().optional().or(z.literal(''))\<close>\<close>

definition optionalString :: "pathItem list \<Rightarrow> json option \<Rightarrow> zodIssue list + string option" where
  "optionalString path v =
     (case v of
        None \<Rightarrow> Inr None
      | Some (JString s) \<Rightarrow> Inr (Some s)
      | _ \<Rightarrow> Inl [invalid_union path])"

definition passengerSchema ::
  "env \<Rightarrow> pathItem list \<Rightarrow> json \<Rightarrow> zodIssue list + passenger" where
  "passengerSchema e path v =
     (case v of
        JObject kvs \<Rightarrow>
          (let f = stringMin1 ''First name is required'' (path @ [Key ''firstName''])
                     (property kvs ''firstName'');
               l = stringMin1 ''Last name is required'' (path @ [Key ''lastName''])
                     (property kvs ''lastName'');
               m = optionalEmail e (path @ [Key ''email'']) (property kvs ''email'');
               p = optionalString (path @ [Key ''phone'']) (property kvs ''phone'')
           in case (f, l, m, p) of
                (Inr f', Inr l', Inr m', Inr p') \<Rightarrow>
                  Inr \<lparr>firstName = f', lastName = l', email = m', phone = p'\<rparr>
              | _ \<Rightarrow> Inl (issuesOf f @ issuesOf l @ issuesOf m @ issuesOf p))
      | _ \<Rightarrow> Inl [invalid_type path])"

text \<open>\<open>z.array(passengerSchema).min(1, 'At least one passenger is required')\<close>\<close>

fun passengerItems ::
  "env \<Rightarrow> pathItem list \<Rightarrow> nat \<Rightarrow> json list \<Rightarrow> zodIssue list + passenger list" where
  "passengerItems e path i [] = Inr []"
| "passengerItems e path i (x # xs) =
     (case (passengerSchema e (path @ [Index i]) x, passengerItems e path (Suc i) xs) of
        (Inr p, Inr ps) \<Rightarrow> Inr (p # ps)
      | (r, rs) \<Rightarrow> Inl (issuesOf r @ issuesOf rs))"

definition passengerArray ::
  "env \<Rightarrow> pathItem list \<Rightarrow> json option \<Rightarrow> zodIssue list + passenger list" where
  "passengerArray e path v =
     (case v of
        Some (JArray xs) \<Rightarrow>
          if length xs < 1 then Inl [too_small path ''At least one passenger is required'']
          else passengerItems e path 0 xs
      | _ \<Rightarrow> Inl [invalid_type path])"

text \<open>\<open>bookingSchema.safeParse\<close>\<close>

definition bookingSchema :: "env \<Rightarrow> json \<Rightarrow> zodIssue list + bookingRequest" where
  "bookingSchema e body =
     (case body of
        JObject kvs \<Rightarrow>
          (let t = stringMin1 ''Trip instance ID is required'' [Key ''tripInstanceId'']
                     (property kvs ''tripInstanceId'');
               ps = passengerArray e [Key ''passengers''] (property kvs ''passengers'');
               ce = stringEmail e ''Valid email is required'' [Key ''contactEmail'']
                      (property kvs ''contactEmail'');
               cp = stringMin1 ''Contact phone is required'' [Key ''contactPhone'']
                      (property kvs ''contactPhone'')
           in case (t, ps, ce, cp) of
                (Inr t', Inr ps', Inr ce', Inr cp') \<Rightarrow>
                  Inr \<lparr>reqTripInstanceId = t', reqPassengers = ps',
                       reqContactEmail = ce', reqContactPhone = cp'\<rparr>
              | _ \<Rightarrow> Inl (issuesOf t @ issuesOf ps @ issuesOf ce @ issuesOf cp))
      | _ \<Rightarrow> Inl [invalid_type []])"

section \<open>The endpoint\<close>

text \<open>
  The JSON bodies the endpoint answers with, and \<open>NextResponse.json(body, { status })\<close>
  (status 200 when none is given).
\<close>

datatype body =
    ConfigurationError string string
  | InvalidRequest string "zodIssue list"
  | Failure string
  | Thrown string string
  | BookingResult string string

datatype response = NextResponse_json body nat

definition caught :: "error \<Rightarrow> response" where
  "caught err =
     NextResponse_json
       (Thrown (if message err = [] then ''Internal server error'' else message err)
               (if errorName err = [] then ''object'' else errorName err))
       500"

text \<open>
  \<open>POST\<close>, given what \<open>await request.json()\<close> yields: the parsed body, or the error it
  throws. Console output is not modelled.
\<close>

definition POST :: "env \<Rightarrow> error + json \<Rightarrow> world \<Rightarrow> response \<times> world" where
  "POST e requestJson w =
     (if DATABASE_URL e = None \<or> DATABASE_URL e = Some [] then
        (NextResponse_json
           (ConfigurationError ''Database configuration error''
              ''DATABASE_URL environment variable is required. Please set it in Vercel environment variables.'')
           500, w)
      else
        (case requestJson of
           Inl err \<Rightarrow> (caught err, w)
         | Inr json \<Rightarrow>
             (case bookingSchema e json of
                Inl issues \<Rightarrow> (NextResponse_json (InvalidRequest ''Invalid request'' issues) 400, w)
              | Inr req \<Rightarrow>
                  (case bookingLoop e req 3 None w of
                     (Inl err, w1) \<Rightarrow> (caught err, w1)
                   | (Inr None, w1) \<Rightarrow>
                       (NextResponse_json
                          (Failure ''Unable to complete booking. Please try again.'') 409, w1)
                   | (Inr (Some b), w1) \<Rightarrow>
                       (NextResponse_json
                          (BookingResult (bookingRef b)
                             (''Booking confirmed! Your booking reference is '' @ bookingRef b))
                          200, w1)))))"

section \<open>Concurrent requests\<close>

text \<open>
  Several requests run the transaction at once. Each is between its read and its
  conditional write (\<open>inflight\<close> holds the request and the row it read) or not in a
  transaction. \<open>Begin c req\<close> is client \<open>c\<close> reading and checking; \<open>Commit c\<close> is its
  conditional write, reference search and booking creation, committed when they succeed
  and rolled back when they throw. An event list is one interleaving.
\<close>

record system =
  shared :: world
  inflight :: "nat \<rightharpoonup> bookingRequest \<times> tripInstance"

datatype event = Begin nat bookingRequest | Commit nat

fun step :: "env \<Rightarrow> event \<Rightarrow> system \<Rightarrow> system" where
  "step e (Begin c req) s =
     (case readAndCheck req (shared s) of
        (Inl err, w1) \<Rightarrow> \<lparr>shared = w1, inflight = (inflight s)(c := None)\<rparr>
      | (Inr ti, w1) \<Rightarrow> \<lparr>shared = w1, inflight = (inflight s)(c \<mapsto> (req, ti))\<rparr>)"
| "step e (Commit c) s =
     (case inflight s c of
        None \<Rightarrow> s
      | Some (req, ti) \<Rightarrow>
          (case reserveAndCreate e req ti (shared s) of
             (Inl err, w1) \<Rightarrow>
               \<lparr>shared = w1\<lparr>db := db (shared s)\<rparr>, inflight = (inflight s)(c := None)\<rparr>
           | (Inr b, w1) \<Rightarrow> \<lparr>shared = w1, inflight = (inflight s)(c := None)\<rparr>))"

fun run :: "env \<Rightarrow> event list \<Rightarrow> system \<Rightarrow> system" where
  "run e [] s = s"
| "run e (ev # evs) s = run e evs (step e ev s)"

text \<open>Seats held by the confirmed bookings of a trip instance.\<close>

definition bookedSeats :: "db \<Rightarrow> string \<Rightarrow> int" where
  "bookedSeats d i =
     (\<Sum>b \<leftarrow> filter (\<lambda>b. tripInstanceId b = i \<and> bookingStatus b = ''confirmed'') (bookings d).
        int (length (passengers b)))"

text \<open>
  A consistent database: every trip instance has between 0 and \<open>capacity\<close> seats available,
  and the seats available and the seats booked do not exceed the capacity together.
\<close>

definition consistent :: "db \<Rightarrow> bool" where
  "consistent d =
     (\<forall>i ti. tripInstances d i = Some ti \<longrightarrow>
        0 \<le> availableSeats ti \<and> availableSeats ti + bookedSeats d i \<le> capacity (trip ti))"

text \<open>
  What holds of the requests in flight: each asked for no more seats than the row it read
  had, that row's trip instance still exists, its version has not gone back, and while
  the version is the one read the row is the one read.
\<close>

definition snapshotsOk :: "system \<Rightarrow> bool" where
  "snapshotsOk s =
     (\<forall>c req snap. inflight s c = Some (req, snap) \<longrightarrow>
        int (length (reqPassengers req)) \<le> availableSeats snap
      \<and> (\<exists>row. tripInstances (db (shared s)) (reqTripInstanceId req) = Some row
             \<and> version snap \<le> version row
             \<and> (version row = version snap \<longrightarrow> row = snap)))"

section \<open>Cancellation\<close>

text \<open>
  Modelled from the spec: the repository has no cancellation operation; only the
  \<open>cancelledAt\<close> column and the status values are declared. What follows is written from
  sections 4.2, 4.4, 6 and 7 of the spec. The failures are those the spec names:
  \<open>NotFound\<close> (no such departure or booking), \<open>VersionConflict\<close> (the internal signal of a
  conditional write that changed no record) and \<open>Contention\<close> (retries exhausted).
\<close>

datatype failure = NotFound | VersionConflict | Contention

text \<open>
  Modelled from the spec: the booking a cancellation is about. The spec cancels a confirmed
  booking, so the reference is looked up among the confirmed bookings; none is the
  spec's \<open>NotFound\<close>.
\<close>

definition confirmedBooking :: "string \<Rightarrow> db \<Rightarrow> booking option" where
  "confirmedBooking r d =
     find (\<lambda>b. bookingRef b = r \<and> bookingStatus b = ''confirmed'') (bookings d)"

text \<open>
  Modelled from the spec: "mark Booking cancelled, stamp cancellation time", on the
  confirmed booking of that reference.
\<close>

definition cancelled :: "nat \<Rightarrow> booking \<Rightarrow> booking" where
  "cancelled now b = b\<lparr>bookingStatus := ''cancelled'', cancelledAt := Some now\<rparr>"

fun markCancelled :: "string \<Rightarrow> nat \<Rightarrow> booking list \<Rightarrow> booking list" where
  "markCancelled r now [] = []"
| "markCancelled r now (b # bs) =
     (if bookingRef b = r \<and> bookingStatus b = ''confirmed'' then cancelled now b # bs
      else b # markCancelled r now bs)"

text \<open>
  Modelled from the spec: one attempt at a cancellation, "the same conditional-version-write
  discipline as reservation, applied in reverse". It reads the booking and the version of
  its departure; other requests may commit; then, in one atomic unit, it increments the
  available seats by the booking's passenger count and the version by 1, only if the
  stored version still equals the version read, and marks the booking. A conditional
  write that changes no record is \<open>VersionConflict\<close>, and nothing of the attempt is kept.
\<close>

definition cancelAttempt :: "string \<Rightarrow> nat \<Rightarrow> world \<Rightarrow> (failure + booking) \<times> world" where
  "cancelAttempt r now w =
     (case confirmedBooking r (db w) of
        None \<Rightarrow> (Inl NotFound, w)
      | Some b \<Rightarrow>
          (case tripInstances (db w) (tripInstanceId b) of
             None \<Rightarrow> (Inl NotFound, w)
           | Some ti \<Rightarrow>
               (let w1 = otherWritersCommit w in
                case tripInstances (db w1) (tripInstanceId b) of
                  None \<Rightarrow> (Inl VersionConflict, w1)
                | Some row \<Rightarrow>
                    if version row = version ti then
                      (Inr (cancelled now b),
                       w1\<lparr>db :=
                            \<lparr>tripInstances = (tripInstances (db w1))(tripInstanceId b \<mapsto>
                               row\<lparr>availableSeats :=
                                     availableSeats row + int (length (passengers b)),
                                   version := version row + 1\<rparr>),
                             bookings = markCancelled r now (bookings (db w1))\<rparr>\<rparr>)
                    else (Inl VersionConflict, w1))))"

text \<open>
  Modelled from the spec: the retry controller of section 4.2,
  \<open>withRetry(maxAttempts, baseDelay, operation)\<close>. On \<open>VersionConflict\<close> it waits
  \<open>baseDelay\<close> and runs the whole operation again, up to \<open>maxAttempts\<close> tries in all; any
  other outcome is final; a conflict on the last try is \<open>Contention\<close>.
\<close>

fun withRetry ::
  "nat \<Rightarrow> nat \<Rightarrow> (world \<Rightarrow> (failure + 'a) \<times> world) \<Rightarrow> world \<Rightarrow> (failure + 'a) \<times> world" where
  "withRetry 0 baseDelay operation w = (Inl Contention, w)"
| "withRetry (Suc n) baseDelay operation w =
     (case operation w of
        (Inl VersionConflict, w1) \<Rightarrow>
          if n = 0 then (Inl Contention, w1)
          else withRetry n baseDelay operation (setTimeout baseDelay w1)
      | (outcome, w1) \<Rightarrow> (outcome, w1))"

text \<open>
  Modelled from the spec: \<open>cancelBooking(bookingRef)\<close>, the attempt under the controller with
  the reference values, 3 tries and 100 ms.
\<close>

definition cancelBooking :: "string \<Rightarrow> nat \<Rightarrow> world \<Rightarrow> (failure + booking) \<times> world" where
  "cancelBooking r now w = withRetry 3 100 (cancelAttempt r now) w"

section \<open>Observations on a state\<close>

definition isTripRead :: "query \<Rightarrow> bool" where
  "isTripRead q = (case q of FindUniqueTripInstance _ \<Rightarrow> True | _ \<Rightarrow> False)"

text \<open>The number of reads of a trip instance made so far.\<close>

definition tripReads :: "world \<Rightarrow> nat" where
  "tripReads w = length (filter isTripRead (queries w))"

definition bookingRefs :: "db \<Rightarrow> string list" where
  "bookingRefs d = map bookingRef (bookings d)"

text \<open>
  The state a transaction's conditional write meets: its read is logged and the commits
  of other requests that precede the write have landed.
\<close>

definition writeState :: "bookingRequest \<Rightarrow> world \<Rightarrow> world" where
  "writeState req w =
     otherWritersCommit (logQuery (FindUniqueTripInstance (reqTripInstanceId req)) w)"

text \<open>
  The transaction's own view after its conditional write, and the reference its search
  ends with on that view.
\<close>

definition writtenState :: "bookingRequest \<Rightarrow> tripInstance \<Rightarrow> world \<Rightarrow> world" where
  "writtenState req ti w = snd (conditionalWrite req ti (writeState req w))"

definition chosenRef :: "env \<Rightarrow> bookingRequest \<Rightarrow> tripInstance \<Rightarrow> world \<Rightarrow> string" where
  "chosenRef e req ti w =
     fst (uniqueRef_loop e 0 (fst (generateBookingRef e (writtenState req ti w)))
            (snd (generateBookingRef e (writtenState req ti w))))"

section \<open>Example data\<close>

definition exampleEnv :: env where
  "exampleEnv =
     \<lparr>DATABASE_URL = Some ''postgresql://localhost/landline'',
      random = (\<lambda>k. 1 / 2),
      isEmail = (\<lambda>s. CHR ''@'' \<in> set s),
      uniqueConstraintMessage = ''Unique constraint failed on the fields: (bookingRef)''\<rparr>"

definition exampleTrip :: trip where
  "exampleTrip = \<lparr>basePrice = 49, capacity = 55\<rparr>"

definition exampleInstance :: tripInstance where
  "exampleInstance = \<lparr>trip = exampleTrip, availableSeats = 5, version = 0, status = ''active''\<rparr>"

definition exampleDb :: db where
  "exampleDb = \<lparr>tripInstances = [''t1'' \<mapsto> exampleInstance], bookings = []\<rparr>"

definition exampleWorld :: world where
  "exampleWorld = \<lparr>db = exampleDb, calls = 0, timeouts = [], queries = [], writers = []\<rparr>"

definition alice :: passenger where
  "alice = \<lparr>firstName = ''Alice'', lastName = ''Ng'', email = None, phone = None\<rparr>"

definition exampleRequest :: bookingRequest where
  "exampleRequest =
     \<lparr>reqTripInstanceId = ''t1'', reqPassengers = [alice],
      reqContactEmail = ''alice@example.org'', reqContactPhone = ''555-0100''\<rparr>"

text \<open>
  Three requests for two seats each on the five seats of \<open>t1\<close>, interleaved: all read
  version 0, the first commits, the other two meet the conflict, one of them tries again
  and commits, and the last then finds one seat.
\<close>

definition variedEnv :: env where
  "variedEnv = exampleEnv\<lparr>random := (\<lambda>k. real (k mod 32) / 32)\<rparr>"

definition pairRequest :: bookingRequest where
  "pairRequest = exampleRequest\<lparr>reqPassengers := [alice, alice]\<rparr>"

definition exampleSystem :: system where
  "exampleSystem = \<lparr>shared = exampleWorld, inflight = Map.empty\<rparr>"

definition exampleEvents :: "event list" where
  "exampleEvents =
     [Begin 1 pairRequest, Begin 2 pairRequest, Begin 3 pairRequest,
      Commit 1, Commit 2, Commit 3,
      Begin 2 pairRequest, Commit 2, Begin 3 pairRequest, Commit 3]"

definition strangerRequest :: bookingRequest where
  "strangerRequest = exampleRequest\<lparr>reqTripInstanceId := ''t9''\<rparr>"

definition exampleBody :: json where
  "exampleBody =
     JObject
       [(''tripInstanceId'', JString ''t1''),
        (''passengers'',
           JArray [JObject [(''firstName'', JString ''Alice''), (''lastName'', JString ''Ng'')]]),
        (''contactEmail'', JString ''alice@example.org''),
        (''contactPhone'', JString ''555-0100'')]"

text \<open>A body without passengers, and a deployment without \<open>DATABASE_URL\<close>.\<close>

definition emptyPassengersBody :: json where
  "emptyPassengersBody =
     JObject
       [(''tripInstanceId'', JString ''t1''),
        (''passengers'', JArray []),
        (''contactEmail'', JString ''alice@example.org''),
        (''contactPhone'', JString ''555-0100'')]"

definition unconfiguredEnv :: env where
  "unconfiguredEnv = exampleEnv\<lparr>DATABASE_URL := None\<rparr>"

text \<open>
  The commit of a competing request: one seat of \<open>t1\<close> taken at the next version, booked
  under a reference made from that version.
\<close>

definition competingCommit :: "db \<Rightarrow> db" where
  "competingCommit d =
     (case tripInstances d ''t1'' of
        None \<Rightarrow> d
      | Some row \<Rightarrow>
          d\<lparr>tripInstances := (tripInstances d)(''t1'' \<mapsto>
               row\<lparr>availableSeats := availableSeats row - 1, version := version row + 1\<rparr>),
            bookings := bookings d @
              [\<lparr>tripInstanceId = ''t1'',
                bookingRef = replicate 6 (chars ! nat (version row)),
                bookingStatus = ''confirmed'',
                totalPrice = 49,
                contactEmail = ''bob@example.org'',
                contactPhone = ''555-0199'',
                passengers = [\<lparr>firstName = ''Bob'', lastName = ''Roe'', email = None, phone = None\<rparr>],
                cancelledAt = None\<rparr>]\<rparr>)"

definition contendedWorld :: world where
  "contendedWorld = exampleWorld\<lparr>writers := [competingCommit, competingCommit, competingCommit]\<rparr>"

text \<open>
  A database in which the reference \<open>SSSSSS\<close> is taken, and a random source that yields
  \<open>SSSSSS\<close> ten times and \<open>AAAAAA\<close> from then on.
\<close>

definition takenBooking :: booking where
  "takenBooking =
     \<lparr>tripInstanceId = ''t1'', bookingRef = ''SSSSSS'', bookingStatus = ''confirmed'',
      totalPrice = 49, contactEmail = ''carol@example.org'', contactPhone = ''555-0142'',
      passengers = [\<lparr>firstName = ''Carol'', lastName = ''Diaz'', email = None, phone = None\<rparr>],
      cancelledAt = None\<rparr>"

definition collidingWorld :: world where
  "collidingWorld =
     exampleWorld\<lparr>db := \<lparr>tripInstances = [''t1'' \<mapsto> exampleInstance], bookings = [takenBooking]\<rparr>\<rparr>"

definition lateEnv :: env where
  "lateEnv = exampleEnv\<lparr>random := (\<lambda>k. if k < 60 then 1 / 2 else 0)\<rparr>"

text \<open>
  A write from elsewhere that changes the seats of \<open>t1\<close> to 3 and leaves its version
  alone, landing between a transaction's read and its conditional write.
\<close>

definition seatEdit :: "db \<Rightarrow> db" where
  "seatEdit d =
     (case tripInstances d ''t1'' of
        None \<Rightarrow> d
      | Some row \<Rightarrow> d\<lparr>tripInstances := (tripInstances d)(''t1'' \<mapsto> row\<lparr>availableSeats := 3\<rparr>)\<rparr>)"

definition driftWorld :: world where
  "driftWorld = exampleWorld\<lparr>writers := [seatEdit]\<rparr>"

text \<open>The same trip instance with no seat left.\<close>

definition soldOutInstance :: tripInstance where
  "soldOutInstance = exampleInstance\<lparr>availableSeats := 0\<rparr>"

definition soldOutWorld :: world where
  "soldOutWorld =
     exampleWorld\<lparr>db := \<lparr>tripInstances = [''t1'' \<mapsto> soldOutInstance], bookings = []\<rparr>\<rparr>"

text \<open>The trip instance with no seat left and one confirmed booking, of one passenger.\<close>

definition fullWorld :: world where
  "fullWorld =
     exampleWorld\<lparr>db := \<lparr>tripInstances = [''t1'' \<mapsto> soldOutInstance], bookings = [takenBooking]\<rparr>\<rparr>"

text \<open>The same trip instance with no seat left, and called off.\<close>

definition cancelledInstance :: tripInstance where
  "cancelledInstance = exampleInstance\<lparr>availableSeats := 0, status := ''cancelled''\<rparr>"

definition cancelledWorld :: world where
  "cancelledWorld =
     exampleWorld\<lparr>db := \<lparr>tripInstances = [''t1'' \<mapsto> cancelledInstance], bookings = []\<rparr>\<rparr>"

section \<open>Properties of the reference generator\<close>

lemma charAt_chars_in_range:
  assumes "0 \<le> r" and "r < 1"
  shows "\<exists>c \<in> set chars. charAt chars \<lfloor>r * real (length chars)\<rfloor> = [c]"
proof -
  have len: "length chars = 32" by (simp add: chars_def)
  define i where "i = \<lfloor>r * 32\<rfloor>"
  have lo: "0 \<le> i" using assms(1) by (simp add: i_def)
  have "r * 32 < 32" using assms(2) by simp
  then have hi: "i < 32" by (simp add: i_def floor_less_iff)
  have "nat i < length chars" using lo hi len by simp
  then have "chars ! nat i \<in> set chars" by (rule nth_mem)
  moreover have "charAt chars i = [chars ! nat i]"
    using lo hi len by (simp add: charAt_def)
  ultimately show ?thesis by (auto simp: len i_def)
qed

lemma generateBookingRef_loop_step:
  "i < 6 \<Longrightarrow> generateBookingRef_loop e i ref w
     = generateBookingRef_loop e (i + 1)
         (ref @ charAt chars \<lfloor>random e (calls w) * real (length chars)\<rfloor>)
         (w\<lparr>calls := Suc (calls w)\<rparr>)"
  by (subst generateBookingRef_loop.simps) (simp add: Math_random_def)

lemma generateBookingRef_loop_stop:
  "\<not> i < 6 \<Longrightarrow> generateBookingRef_loop e i ref w = (ref, w)"
  by (subst generateBookingRef_loop.simps) simp

lemma generateBookingRef_loop_world:
  "snd (generateBookingRef_loop e i ref w) = w\<lparr>calls := calls w + (6 - i)\<rparr>"
proof (induction e i ref w rule: generateBookingRef_loop.induct)
  case (1 e i ref w)
  show ?case
  proof (cases "i < 6")
    case False
    then show ?thesis by (simp add: generateBookingRef_loop_stop)
  next
    case True
    let ?c = "charAt chars \<lfloor>random e (calls w) * real (length chars)\<rfloor>"
    let ?w' = "w\<lparr>calls := Suc (calls w)\<rparr>"
    have m: "(random e (calls w), ?w') = Math_random e w" by (simp add: Math_random_def)
    have "snd (generateBookingRef_loop e (i + 1) (ref @ ?c) ?w')
            = ?w'\<lparr>calls := calls ?w' + (6 - (i + 1))\<rparr>"
      by (rule "1.IH"[OF True m])
    then show ?thesis using True by (simp add: generateBookingRef_loop_step)
  qed
qed

lemma generateBookingRef_world:
  "snd (generateBookingRef e w) = w\<lparr>calls := calls w + 6\<rparr>"
  using generateBookingRef_loop_world[of e 0 "[]" w] by (simp add: generateBookingRef_def)

lemma generateBookingRef_loop_shape:
  "(\<forall>k. 0 \<le> random e k \<and> random e k < 1) \<Longrightarrow> i \<le> 6 \<Longrightarrow>
    \<exists>suffix. fst (generateBookingRef_loop e i ref w) = ref @ suffix
       \<and> length suffix = 6 - i \<and> set suffix \<subseteq> set chars"
proof (induction e i ref w rule: generateBookingRef_loop.induct)
  case (1 e i ref w)
  show ?case
  proof (cases "i < 6")
    case False
    with "1.prems" show ?thesis by (simp add: generateBookingRef_loop_stop)
  next
    case True
    note rnd = "1.prems"(1)
    let ?r = "random e (calls w)"
    let ?w' = "w\<lparr>calls := Suc (calls w)\<rparr>"
    let ?c = "charAt chars \<lfloor>?r * real (length chars)\<rfloor>"
    have "0 \<le> ?r" "?r < 1" using rnd by simp_all
    then obtain c where c: "c \<in> set chars" "?c = [c]"
      using charAt_chars_in_range[of ?r] by blast
    have m: "(?r, ?w') = Math_random e w" by (simp add: Math_random_def)
    have "i + 1 \<le> 6" using True by simp
    from "1.IH"[OF True m rnd this]
    obtain suffix where s:
      "fst (generateBookingRef_loop e (i + 1) (ref @ ?c) ?w') = (ref @ ?c) @ suffix"
      "length suffix = 6 - (i + 1)" "set suffix \<subseteq> set chars"
      by blast
    have "fst (generateBookingRef_loop e i ref w) = ref @ (c # suffix)"
      using generateBookingRef_loop_step[OF True, of e ref w] s(1) c(2) by simp
    moreover have "length (c # suffix) = 6 - i" using s(2) True by simp
    moreover have "set (c # suffix) \<subseteq> set chars" using s(3) c(1) by simp
    ultimately show ?thesis by blast
  qed
qed

section \<open>Properties of the store calls and of the reference search\<close>

lemma find_None_refs: "find (\<lambda>b. bookingRef b = r) bs = None \<longleftrightarrow> r \<notin> set (map bookingRef bs)"
  by (induction bs) auto

lemma find_Some_refs:
  "find (\<lambda>b. bookingRef b = r) bs = Some x \<Longrightarrow> r \<in> set (map bookingRef bs)"
  using find_None_refs[of r bs] by auto

lemma uniqueRef_loop_stop: "\<not> a < 10 \<Longrightarrow> uniqueRef_loop e a ref w = (ref, w)"
  by (subst uniqueRef_loop.simps) simp

lemma uniqueRef_loop_free:
  "a < 10 \<Longrightarrow> ref \<notin> set (bookingRefs (db w)) \<Longrightarrow>
   uniqueRef_loop e a ref w = (ref, logQuery (FindUniqueBooking ref) w)"
  using find_None_refs[of ref "bookings (db w)"]
  by (subst uniqueRef_loop.simps) (simp add: findUniqueBooking_def bookingRefs_def)

lemma uniqueRef_loop_collision:
  "a < 10 \<Longrightarrow> ref \<in> set (bookingRefs (db w)) \<Longrightarrow>
   uniqueRef_loop e a ref w =
     uniqueRef_loop e (a + 1) (fst (generateBookingRef e (logQuery (FindUniqueBooking ref) w)))
       ((logQuery (FindUniqueBooking ref) w)\<lparr>calls := calls w + 6\<rparr>)"
proof -
  assume a: "a < 10" and r: "ref \<in> set (bookingRefs (db w))"
  let ?w1 = "logQuery (FindUniqueBooking ref) w"
  from r obtain x where x: "find (\<lambda>b. bookingRef b = ref) (bookings (db w)) = Some x"
    using find_None_refs[of ref "bookings (db w)"] by (cases "find (\<lambda>b. bookingRef b = ref) (bookings (db w))") (auto simp: bookingRefs_def)
  have g: "generateBookingRef e ?w1 = (fst (generateBookingRef e ?w1), ?w1\<lparr>calls := calls w + 6\<rparr>)"
    using generateBookingRef_world[of e ?w1] by (simp add: prod_eq_iff logQuery_def)
  show ?thesis
    apply (subst uniqueRef_loop.simps)
    apply (simp add: a findUniqueBooking_def x)
    apply (subst g)
    apply simp
    done
qed

lemma uniqueRef_loop_candidates:
  "\<exists>cands. queries (snd (uniqueRef_loop e a ref w)) = queries w @ map FindUniqueBooking cands
     \<and> length cands \<le> 10 - a
     \<and> calls w \<le> calls (snd (uniqueRef_loop e a ref w))
     \<and> db (snd (uniqueRef_loop e a ref w)) = db w
     \<and> writers (snd (uniqueRef_loop e a ref w)) = writers w
     \<and> timeouts (snd (uniqueRef_loop e a ref w)) = timeouts w
     \<and> ((cands \<noteq> [] \<and> last cands = fst (uniqueRef_loop e a ref w)
          \<and> set (butlast cands) \<subseteq> set (bookingRefs (db w))
          \<and> fst (uniqueRef_loop e a ref w) \<notin> set (bookingRefs (db w)))
        \<or> (length cands = 10 - a \<and> set cands \<subseteq> set (bookingRefs (db w))))"
proof (induction "10 - a" arbitrary: a ref w)
  case 0
  then have "uniqueRef_loop e a ref w = (ref, w)" by (simp add: uniqueRef_loop_stop)
  then show ?case using 0 by (intro exI[of _ "[]"]) simp
next
  case (Suc n)
  then have a: "a < 10" by simp
  let ?w1 = "logQuery (FindUniqueBooking ref) w"
  show ?case
  proof (cases "ref \<in> set (bookingRefs (db w))")
    case False
    then show ?thesis using uniqueRef_loop_free[OF a False, of e] a
      by (intro exI[of _ "[ref]"]) (simp add: logQuery_def)
  next
    case True
    let ?ref' = "fst (generateBookingRef e ?w1)"
    let ?w2 = "?w1\<lparr>calls := calls w + 6\<rparr>"
    have unf: "uniqueRef_loop e a ref w = uniqueRef_loop e (a + 1) ?ref' ?w2"
      by (rule uniqueRef_loop_collision[OF a True])
    have n: "n = 10 - (a + 1)" using Suc(2) by simp
    have dbw2: "db ?w2 = db w" and qw2: "queries ?w2 = queries w @ [FindUniqueBooking ref]"
      and rest: "writers ?w2 = writers w" "timeouts ?w2 = timeouts w" "calls ?w2 = calls w + 6"
      by (simp_all add: logQuery_def)
    from Suc(1)[OF n, of ?ref' ?w2]
    obtain cands where c:
      "queries (snd (uniqueRef_loop e (a + 1) ?ref' ?w2)) = queries ?w2 @ map FindUniqueBooking cands"
      "length cands \<le> 10 - (a + 1)"
      "calls ?w2 \<le> calls (snd (uniqueRef_loop e (a + 1) ?ref' ?w2))"
      "db (snd (uniqueRef_loop e (a + 1) ?ref' ?w2)) = db ?w2"
      "writers (snd (uniqueRef_loop e (a + 1) ?ref' ?w2)) = writers ?w2"
      "timeouts (snd (uniqueRef_loop e (a + 1) ?ref' ?w2)) = timeouts ?w2"
      "(cands \<noteq> [] \<and> last cands = fst (uniqueRef_loop e (a + 1) ?ref' ?w2)
          \<and> set (butlast cands) \<subseteq> set (bookingRefs (db ?w2))
          \<and> fst (uniqueRef_loop e (a + 1) ?ref' ?w2) \<notin> set (bookingRefs (db ?w2)))
        \<or> (length cands = 10 - (a + 1) \<and> set cands \<subseteq> set (bookingRefs (db ?w2)))"
      by blast
    show ?thesis
    proof (intro exI[of _ "ref # cands"] conjI)
      show "queries (snd (uniqueRef_loop e a ref w)) = queries w @ map FindUniqueBooking (ref # cands)"
        unfolding unf c(1) qw2 by simp
      show "length (ref # cands) \<le> 10 - a" using c(2) a by simp
      show "calls w \<le> calls (snd (uniqueRef_loop e a ref w))"
        unfolding unf using c(3) rest(3) by simp
      show "db (snd (uniqueRef_loop e a ref w)) = db w" unfolding unf c(4) dbw2 ..
      show "writers (snd (uniqueRef_loop e a ref w)) = writers w" unfolding unf c(5) rest(1) ..
      show "timeouts (snd (uniqueRef_loop e a ref w)) = timeouts w" unfolding unf c(6) rest(2) ..
      show "(ref # cands \<noteq> [] \<and> last (ref # cands) = fst (uniqueRef_loop e a ref w)
          \<and> set (butlast (ref # cands)) \<subseteq> set (bookingRefs (db w))
          \<and> fst (uniqueRef_loop e a ref w) \<notin> set (bookingRefs (db w)))
        \<or> (length (ref # cands) = 10 - a \<and> set (ref # cands) \<subseteq> set (bookingRefs (db w)))"
        unfolding unf using c(7) True a unfolding dbw2 by auto
    qed
  qed
qed

lemma updateMany_conflict:
  "\<forall>row. tripInstances (db w) i = Some row \<longrightarrow> version row \<noteq> v \<Longrightarrow>
   updateManyTripInstance i v s' v' w = (0, logQuery (UpdateManyTripInstance i v) w)"
  by (cases "tripInstances (db w) i") (simp_all add: updateManyTripInstance_def)

lemma updateMany_match:
  "tripInstances (db w) i = Some row \<Longrightarrow> version row = v \<Longrightarrow>
   updateManyTripInstance i v s' v' w =
     (1, (logQuery (UpdateManyTripInstance i v) w)\<lparr>db := (db w)\<lparr>tripInstances :=
            (tripInstances (db w))(i \<mapsto> row\<lparr>availableSeats := s', version := v'\<rparr>)\<rparr>\<rparr>)"
  by (simp add: updateManyTripInstance_def)

lemma createBooking_created:
  "bookingRef b \<notin> set (bookingRefs (db w)) \<Longrightarrow>
   createBooking e b w =
     (Inr b, (logQuery (CreateBooking (bookingRef b)) w)\<lparr>db := (db w)\<lparr>bookings := bookings (db w) @ [b]\<rparr>\<rparr>)"
  by (simp add: createBooking_def bookingRefs_def)

lemma createBooking_duplicate:
  "bookingRef b \<in> set (bookingRefs (db w)) \<Longrightarrow>
   createBooking e b w =
     (Inl (JsError ''PrismaClientKnownRequestError'' (uniqueConstraintMessage e)),
      logQuery (CreateBooking (bookingRef b)) w)"
  by (simp add: createBooking_def bookingRefs_def)

lemma bookingRef_bookingData [simp]: "bookingRef (bookingData req ti r) = r"
  by (simp add: bookingData_def)

lemma reserveAndCreate_conflict:
  assumes "\<forall>row. tripInstances (db w) (reqTripInstanceId req) = Some row \<longrightarrow> version row \<noteq> version ti"
  shows "reserveAndCreate e req ti w =
     (Inl (Error ''CONCURRENT_MODIFICATION''),
      logQuery (UpdateManyTripInstance (reqTripInstanceId req) (version ti)) w)"
  by (simp add: reserveAndCreate_def conditionalWrite_def updateMany_conflict[OF assms])

lemma reserveAndCreate_matched:
  assumes row: "tripInstances (db w) (reqTripInstanceId req) = Some row"
    and v: "version row = version ti"
  obtains r cands w3 where
    "reserveAndCreate e req ti w = createBooking e (bookingData req ti r) w3"
    "db w3 = (db w)\<lparr>tripInstances := (tripInstances (db w))(reqTripInstanceId req \<mapsto>
        row\<lparr>availableSeats := availableSeats ti - int (length (reqPassengers req)),
            version := version ti + 1\<rparr>)\<rparr>"
    "queries w3 = queries w @ UpdateManyTripInstance (reqTripInstanceId req) (version ti)
                    # map FindUniqueBooking cands"
    "writers w3 = writers w" "timeouts w3 = timeouts w" "calls w \<le> calls w3"
    "length cands \<le> 10"
    "(cands \<noteq> [] \<and> last cands = r \<and> r \<notin> set (bookingRefs (db w)))
       \<or> (length cands = 10 \<and> set cands \<subseteq> set (bookingRefs (db w)))"
proof -
  let ?i = "reqTripInstanceId req"
  let ?w1 = "(logQuery (UpdateManyTripInstance ?i (version ti)) w)\<lparr>db := (db w)\<lparr>tripInstances :=
            (tripInstances (db w))(?i \<mapsto> row\<lparr>availableSeats := availableSeats ti - int (length (reqPassengers req)), version := version ti + 1\<rparr>)\<rparr>\<rparr>"
  define ref0 where "ref0 = fst (generateBookingRef e ?w1)"
  let ?w2 = "?w1\<lparr>calls := calls ?w1 + 6\<rparr>"
  let ?r = "fst (uniqueRef_loop e 0 ref0 ?w2)"
  let ?w3 = "snd (uniqueRef_loop e 0 ref0 ?w2)"
  have g: "generateBookingRef e ?w1 = (ref0, ?w2)"
    using generateBookingRef_world[of e ?w1] by (simp add: prod_eq_iff ref0_def)
  have eq: "reserveAndCreate e req ti w = createBooking e (bookingData req ti ?r) ?w3"
    unfolding reserveAndCreate_def conditionalWrite_def updateMany_match[OF row v]
    by (simp add: g split: prod.splits)
  have refs: "bookingRefs (db ?w2) = bookingRefs (db w)"
    by (simp add: bookingRefs_def logQuery_def)
  from uniqueRef_loop_candidates[of e 0 ref0 ?w2]
  obtain cands where c:
    "queries ?w3 = queries ?w2 @ map FindUniqueBooking cands"
    "length cands \<le> 10" "calls ?w2 \<le> calls ?w3" "db ?w3 = db ?w2"
    "writers ?w3 = writers ?w2" "timeouts ?w3 = timeouts ?w2"
    "(cands \<noteq> [] \<and> last cands = ?r \<and> ?r \<notin> set (bookingRefs (db ?w2)))
       \<or> (length cands = 10 \<and> set cands \<subseteq> set (bookingRefs (db ?w2)))"
    by auto
  show thesis
  proof (rule that[of ?r ?w3 cands])
    show "reserveAndCreate e req ti w = createBooking e (bookingData req ti ?r) ?w3" by (rule eq)
    show "db ?w3 = (db w)\<lparr>tripInstances := (tripInstances (db w))(?i \<mapsto>
        row\<lparr>availableSeats := availableSeats ti - int (length (reqPassengers req)),
            version := version ti + 1\<rparr>)\<rparr>"
      unfolding c(4) by (simp add: logQuery_def)
    show "queries ?w3 = queries w @ UpdateManyTripInstance ?i (version ti) # map FindUniqueBooking cands"
      unfolding c(1) by (simp add: logQuery_def)
    show "writers ?w3 = writers w" unfolding c(5) by (simp add: logQuery_def)
    show "timeouts ?w3 = timeouts w" unfolding c(6) by (simp add: logQuery_def)
    show "calls w \<le> calls ?w3" using c(3) by (simp add: logQuery_def)
    show "length cands \<le> 10" by (rule c(2))
    show "(cands \<noteq> [] \<and> last cands = ?r \<and> ?r \<notin> set (bookingRefs (db w)))
       \<or> (length cands = 10 \<and> set cands \<subseteq> set (bookingRefs (db w)))"
      using c(7) unfolding refs .
  qed
qed

section \<open>Outcomes of a transaction\<close>

lemma transaction_notFound:
  "tripInstances (db w) (reqTripInstanceId req) = None \<Longrightarrow>
   transaction e req w =
     (Inl (Error ''Trip not found''), logQuery (FindUniqueTripInstance (reqTripInstanceId req)) w)"
  by (simp add: transaction_def readAndCheck_def findUniqueTripInstance_def)

lemma transaction_unavailable:
  "tripInstances (db w) (reqTripInstanceId req) = Some ti \<Longrightarrow> status ti \<noteq> ''active'' \<Longrightarrow>
   transaction e req w =
     (Inl (Error ''Trip is no longer available''),
      logQuery (FindUniqueTripInstance (reqTripInstanceId req)) w)"
  by (simp add: transaction_def readAndCheck_def findUniqueTripInstance_def)

lemma transaction_insufficient:
  "tripInstances (db w) (reqTripInstanceId req) = Some ti \<Longrightarrow> status ti = ''active'' \<Longrightarrow>
   availableSeats ti < int (length (reqPassengers req)) \<Longrightarrow>
   transaction e req w =
     (Inl (Error (''Only '' @ String_of_int (availableSeats ti) @ '' seats available'')),
      logQuery (FindUniqueTripInstance (reqTripInstanceId req)) w)"
  by (simp add: transaction_def readAndCheck_def findUniqueTripInstance_def)

lemma transaction_checked:
  "tripInstances (db w) (reqTripInstanceId req) = Some ti \<Longrightarrow> status ti = ''active'' \<Longrightarrow>
   int (length (reqPassengers req)) \<le> availableSeats ti \<Longrightarrow>
   transaction e req w =
     (case reserveAndCreate e req ti
             (otherWritersCommit (logQuery (FindUniqueTripInstance (reqTripInstanceId req)) w)) of
        (Inl err, w3) \<Rightarrow>
          (Inl err, w3\<lparr>db := db (otherWritersCommit
                                   (logQuery (FindUniqueTripInstance (reqTripInstanceId req)) w))\<rparr>)
      | (Inr b, w3) \<Rightarrow> (Inr b, w3))"
  by (simp add: transaction_def readAndCheck_def findUniqueTripInstance_def Let_def)

text \<open>
  The outcomes of the part of a transaction that follows the checks, on the state \<open>w\<close> the
  conditional write meets: a conflict, a reference that exists already, or the booking.
\<close>

lemma reserveAndCreate_outcomes:
  obtains
    (conflict)
      "\<forall>row. tripInstances (db w) (reqTripInstanceId req) = Some row \<longrightarrow> version row \<noteq> version ti"
      "reserveAndCreate e req ti w =
         (Inl (Error ''CONCURRENT_MODIFICATION''),
          logQuery (UpdateManyTripInstance (reqTripInstanceId req) (version ti)) w)"
  | (duplicate) row r cands w' where
      "tripInstances (db w) (reqTripInstanceId req) = Some row" "version row = version ti"
      "length cands = 10" "set cands \<subseteq> set (bookingRefs (db w))" "r \<in> set (bookingRefs (db w))"
      "reserveAndCreate e req ti w =
         (Inl (JsError ''PrismaClientKnownRequestError'' (uniqueConstraintMessage e)), w')"
      "queries w' = queries w @ UpdateManyTripInstance (reqTripInstanceId req) (version ti)
                      # map FindUniqueBooking cands @ [CreateBooking r]"
      "writers w' = writers w" "timeouts w' = timeouts w"
  | (created) row r cands w' where
      "tripInstances (db w) (reqTripInstanceId req) = Some row" "version row = version ti"
      "length cands \<le> 10" "r \<notin> set (bookingRefs (db w))"
      "reserveAndCreate e req ti w = (Inr (bookingData req ti r), w')"
      "db w' = \<lparr>tripInstances = (tripInstances (db w))(reqTripInstanceId req \<mapsto>
                   row\<lparr>availableSeats := availableSeats ti - int (length (reqPassengers req)),
                       version := version ti + 1\<rparr>),
                bookings = bookings (db w) @ [bookingData req ti r]\<rparr>"
      "queries w' = queries w @ UpdateManyTripInstance (reqTripInstanceId req) (version ti)
                      # map FindUniqueBooking cands @ [CreateBooking r]"
      "writers w' = writers w" "timeouts w' = timeouts w"
proof (cases "\<exists>row. tripInstances (db w) (reqTripInstanceId req) = Some row \<and> version row = version ti")
  case False
  then have n: "\<forall>row. tripInstances (db w) (reqTripInstanceId req) = Some row \<longrightarrow> version row \<noteq> version ti"
    by blast
  show thesis by (rule conflict[OF n reserveAndCreate_conflict[OF n]])
next
  case True
  then obtain row where row: "tripInstances (db w) (reqTripInstanceId req) = Some row"
    and v: "version row = version ti" by blast
  obtain r cands w3 where m:
    "reserveAndCreate e req ti w = createBooking e (bookingData req ti r) w3"
    "db w3 = (db w)\<lparr>tripInstances := (tripInstances (db w))(reqTripInstanceId req \<mapsto>
        row\<lparr>availableSeats := availableSeats ti - int (length (reqPassengers req)),
            version := version ti + 1\<rparr>)\<rparr>"
    "queries w3 = queries w @ UpdateManyTripInstance (reqTripInstanceId req) (version ti)
                    # map FindUniqueBooking cands"
    "writers w3 = writers w" "timeouts w3 = timeouts w" "calls w \<le> calls w3"
    "length cands \<le> 10"
    "(cands \<noteq> [] \<and> last cands = r \<and> r \<notin> set (bookingRefs (db w)))
       \<or> (length cands = 10 \<and> set cands \<subseteq> set (bookingRefs (db w)))"
    by (rule reserveAndCreate_matched[OF row v, of e], rule that)
  have refs3: "bookingRefs (db w3) = bookingRefs (db w)"
    unfolding m(2) by (simp add: bookingRefs_def)
  show thesis
  proof (cases "r \<in> set (bookingRefs (db w))")
    case True
    then have ex: "length cands = 10" "set cands \<subseteq> set (bookingRefs (db w))"
      using m(8) by auto
    have "bookingRef (bookingData req ti r) \<in> set (bookingRefs (db w3))"
      using True refs3 by simp
    from createBooking_duplicate[OF this, of e]
    have c: "reserveAndCreate e req ti w =
         (Inl (JsError ''PrismaClientKnownRequestError'' (uniqueConstraintMessage e)),
          logQuery (CreateBooking r) w3)"
      using m(1) by simp
    show thesis
      by (rule duplicate[OF row v ex True c])
         (simp_all add: logQuery_def m(3) m(4) m(5))
  next
    case False
    then have "bookingRef (bookingData req ti r) \<notin> set (bookingRefs (db w3))"
      using refs3 by simp
    from createBooking_created[OF this, of e]
    have c: "reserveAndCreate e req ti w =
         (Inr (bookingData req ti r),
          (logQuery (CreateBooking r) w3)\<lparr>db := (db w3)\<lparr>bookings := bookings (db w3) @ [bookingData req ti r]\<rparr>\<rparr>)"
      using m(1) by simp
    show thesis
      by (rule created[OF row v m(7) False c])
         (simp_all add: logQuery_def m(2) m(3) m(4) m(5))
  qed
qed

text \<open>
  The outcomes of a transaction whose checks pass, \<open>w2\<close> being the state its conditional
  write meets.
\<close>

lemma transaction_outcomes:
  assumes ti: "tripInstances (db w) (reqTripInstanceId req) = Some ti"
    and act: "status ti = ''active''"
    and cap: "int (length (reqPassengers req)) \<le> availableSeats ti"
    and w2: "w2 = otherWritersCommit (logQuery (FindUniqueTripInstance (reqTripInstanceId req)) w)"
  obtains
    (conflict)
      "\<forall>row. tripInstances (db w2) (reqTripInstanceId req) = Some row \<longrightarrow> version row \<noteq> version ti"
      "transaction e req w =
         (Inl (Error ''CONCURRENT_MODIFICATION''),
          logQuery (UpdateManyTripInstance (reqTripInstanceId req) (version ti)) w2)"
  | (duplicate) row r cands w' where
      "tripInstances (db w2) (reqTripInstanceId req) = Some row" "version row = version ti"
      "length cands = 10" "set cands \<subseteq> set (bookingRefs (db w2))" "r \<in> set (bookingRefs (db w2))"
      "transaction e req w =
         (Inl (JsError ''PrismaClientKnownRequestError'' (uniqueConstraintMessage e)), w')"
      "db w' = db w2"
      "queries w' = queries w2 @ UpdateManyTripInstance (reqTripInstanceId req) (version ti)
                      # map FindUniqueBooking cands @ [CreateBooking r]"
      "writers w' = writers w2" "timeouts w' = timeouts w2"
  | (created) row r cands w' where
      "tripInstances (db w2) (reqTripInstanceId req) = Some row" "version row = version ti"
      "length cands \<le> 10" "r \<notin> set (bookingRefs (db w2))"
      "transaction e req w = (Inr (bookingData req ti r), w')"
      "db w' = \<lparr>tripInstances = (tripInstances (db w2))(reqTripInstanceId req \<mapsto>
                   row\<lparr>availableSeats := availableSeats ti - int (length (reqPassengers req)),
                       version := version ti + 1\<rparr>),
                bookings = bookings (db w2) @ [bookingData req ti r]\<rparr>"
      "queries w' = queries w2 @ UpdateManyTripInstance (reqTripInstanceId req) (version ti)
                      # map FindUniqueBooking cands @ [CreateBooking r]"
      "writers w' = writers w2" "timeouts w' = timeouts w2"
proof -
  note t = transaction_checked[OF ti act cap, of e, folded w2]
  show thesis
  proof (rule reserveAndCreate_outcomes[of w2 req ti e])
    assume n: "\<forall>row. tripInstances (db w2) (reqTripInstanceId req) = Some row \<longrightarrow> version row \<noteq> version ti"
      and r: "reserveAndCreate e req ti w2 =
         (Inl (Error ''CONCURRENT_MODIFICATION''),
          logQuery (UpdateManyTripInstance (reqTripInstanceId req) (version ti)) w2)"
    have "transaction e req w =
         (Inl (Error ''CONCURRENT_MODIFICATION''),
          logQuery (UpdateManyTripInstance (reqTripInstanceId req) (version ti)) w2)"
      unfolding t r by (simp add: logQuery_def)
    then show thesis by (rule conflict[OF n])
  next
    fix row r cands w'
    assume a: "tripInstances (db w2) (reqTripInstanceId req) = Some row" "version row = version ti"
      "length cands = 10" "set cands \<subseteq> set (bookingRefs (db w2))" "r \<in> set (bookingRefs (db w2))"
      and rc: "reserveAndCreate e req ti w2 =
         (Inl (JsError ''PrismaClientKnownRequestError'' (uniqueConstraintMessage e)), w')"
      and f: "queries w' = queries w2 @ UpdateManyTripInstance (reqTripInstanceId req) (version ti)
                      # map FindUniqueBooking cands @ [CreateBooking r]"
      "writers w' = writers w2" "timeouts w' = timeouts w2"
    have "transaction e req w =
         (Inl (JsError ''PrismaClientKnownRequestError'' (uniqueConstraintMessage e)),
          w'\<lparr>db := db w2\<rparr>)"
      unfolding t rc by simp
    then show thesis
      by (rule duplicate[OF a]) (simp_all add: f)
  next
    fix row r cands w'
    assume a: "tripInstances (db w2) (reqTripInstanceId req) = Some row" "version row = version ti"
      "length cands \<le> 10" "r \<notin> set (bookingRefs (db w2))"
      and rc: "reserveAndCreate e req ti w2 = (Inr (bookingData req ti r), w')"
      and f: "db w' = \<lparr>tripInstances = (tripInstances (db w2))(reqTripInstanceId req \<mapsto>
                   row\<lparr>availableSeats := availableSeats ti - int (length (reqPassengers req)),
                       version := version ti + 1\<rparr>),
                bookings = bookings (db w2) @ [bookingData req ti r]\<rparr>"
      "queries w' = queries w2 @ UpdateManyTripInstance (reqTripInstanceId req) (version ti)
                      # map FindUniqueBooking cands @ [CreateBooking r]"
      "writers w' = writers w2" "timeouts w' = timeouts w2"
    have "transaction e req w = (Inr (bookingData req ti r), w')"
      unfolding t rc by simp
    then show thesis
      by (rule created[OF a _ f])
  qed
qed

lemma conditionalWrite_count:
  "fst (conditionalWrite req ti w) = 0 \<longleftrightarrow>
     (\<forall>row. tripInstances (db w) (reqTripInstanceId req) = Some row \<longrightarrow> version row \<noteq> version ti)"
  by (cases "tripInstances (db w) (reqTripInstanceId req)")
     (simp_all add: conditionalWrite_def updateManyTripInstance_def Let_def)

lemma conditionalWrite_db:
  "db (snd (conditionalWrite req ti w)) =
     (case tripInstances (db w) (reqTripInstanceId req) of
        None \<Rightarrow> db w
      | Some row \<Rightarrow>
          if version row = version ti then
            (db w)\<lparr>tripInstances := (tripInstances (db w))(reqTripInstanceId req \<mapsto>
               row\<lparr>availableSeats := availableSeats ti - int (length (reqPassengers req)),
                   version := version row + 1\<rparr>)\<rparr>
          else db w)"
  by (cases "tripInstances (db w) (reqTripInstanceId req)")
     (simp_all add: conditionalWrite_def updateManyTripInstance_def logQuery_def Let_def)

section \<open>Unfolding for evaluation\<close>

lemmas example_defs =
  exampleEnv_def exampleWorld_def exampleDb_def exampleInstance_def exampleTrip_def
  exampleRequest_def alice_def contendedWorld_def competingCommit_def
  cancelledInstance_def cancelledWorld_def soldOutInstance_def soldOutWorld_def
  takenBooking_def collidingWorld_def lateEnv_def exampleBody_def strangerRequest_def
  variedEnv_def pairRequest_def exampleSystem_def exampleEvents_def
  emptyPassengersBody_def unconfiguredEnv_def seatEdit_def driftWorld_def fullWorld_def

lemmas schema_defs =
  bookingSchema_def passengerArray_def passengerItems.simps passengerSchema_def
  stringMin1_def stringEmail_def optionalEmail_def optionalString_def property_def
  issuesOf_def

lemmas run_defs =
  transaction_def readAndCheck_def findUniqueTripInstance_def logQuery_def
  otherWritersCommit_def writeState_def reserveAndCreate_def conditionalWrite_def
  updateManyTripInstance_def generateBookingRef_def generateBookingRef_loop.simps
  uniqueRef_loop.simps findUniqueBooking_def createBooking_def bookingData_def
  Math_random_def charAt_def chars_def orNull_def Error_def setTimeout_def Let_def
  writtenState_def chosenRef_def

section \<open>The state a conditional write meets, and a summary of outcomes\<close>

lemma writeState_queries:
  "queries (writeState req w) = queries w @ [FindUniqueTripInstance (reqTripInstanceId req)]"
  by (cases "writers w") (simp_all add: writeState_def otherWritersCommit_def logQuery_def)

lemma writeState_timeouts: "timeouts (writeState req w) = timeouts w"
  by (cases "writers w") (simp_all add: writeState_def otherWritersCommit_def logQuery_def)

lemma writeState_quiet: "writers w = [] \<Longrightarrow> db (writeState req w) = db w \<and> writers (writeState req w) = []"
  by (simp add: writeState_def otherWritersCommit_def logQuery_def)

lemma not_isTripRead [simp]:
  "\<not> isTripRead (UpdateManyTripInstance i v)" "\<not> isTripRead (FindUniqueBooking r)"
  "\<not> isTripRead (CreateBooking r)" "isTripRead (FindUniqueTripInstance i)"
  by (simp_all add: isTripRead_def)

text \<open>
  Every outcome of a transaction at once: the error or the booking, the database left
  behind and the store calls made.
\<close>

lemma transaction_summary:
  obtains
    (rejected) err where
      "transaction e req w = (Inl err, logQuery (FindUniqueTripInstance (reqTripInstanceId req)) w)"
      "err = Error ''Trip not found'' \<or> err = Error ''Trip is no longer available''
         \<or> (\<exists>n. err = Error (''Only '' @ String_of_int n @ '' seats available''))"
  | (conflict) ti where
      "tripInstances (db w) (reqTripInstanceId req) = Some ti"
      "\<forall>row. tripInstances (db (writeState req w)) (reqTripInstanceId req) = Some row
             \<longrightarrow> version row \<noteq> version ti"
      "transaction e req w =
         (Inl (Error ''CONCURRENT_MODIFICATION''),
          logQuery (UpdateManyTripInstance (reqTripInstanceId req) (version ti)) (writeState req w))"
  | (duplicate) ti row r cands w' where
      "tripInstances (db w) (reqTripInstanceId req) = Some ti"
      "tripInstances (db (writeState req w)) (reqTripInstanceId req) = Some row"
      "version row = version ti"
      "length cands = 10" "set cands \<subseteq> set (bookingRefs (db (writeState req w)))"
      "r \<in> set (bookingRefs (db (writeState req w)))"
      "transaction e req w =
         (Inl (JsError ''PrismaClientKnownRequestError'' (uniqueConstraintMessage e)), w')"
      "db w' = db (writeState req w)"
      "queries w' = queries (writeState req w)
                      @ UpdateManyTripInstance (reqTripInstanceId req) (version ti)
                      # map FindUniqueBooking cands @ [CreateBooking r]"
      "writers w' = writers (writeState req w)" "timeouts w' = timeouts (writeState req w)"
  | (created) ti row r cands w' where
      "tripInstances (db w) (reqTripInstanceId req) = Some ti"
      "status ti = ''active''" "int (length (reqPassengers req)) \<le> availableSeats ti"
      "tripInstances (db (writeState req w)) (reqTripInstanceId req) = Some row"
      "version row = version ti"
      "length cands \<le> 10" "r \<notin> set (bookingRefs (db (writeState req w)))"
      "transaction e req w = (Inr (bookingData req ti r), w')"
      "db w' = \<lparr>tripInstances = (tripInstances (db (writeState req w)))(reqTripInstanceId req \<mapsto>
                   row\<lparr>availableSeats := availableSeats ti - int (length (reqPassengers req)),
                       version := version ti + 1\<rparr>),
                bookings = bookings (db (writeState req w)) @ [bookingData req ti r]\<rparr>"
      "queries w' = queries (writeState req w)
                      @ UpdateManyTripInstance (reqTripInstanceId req) (version ti)
                      # map FindUniqueBooking cands @ [CreateBooking r]"
      "writers w' = writers (writeState req w)" "timeouts w' = timeouts (writeState req w)"
proof (cases "tripInstances (db w) (reqTripInstanceId req)")
  case None
  show thesis by (rule rejected[OF transaction_notFound[OF None]]) simp
next
  case (Some ti)
  show thesis
  proof (cases "status ti = ''active''")
    case False
    show thesis by (rule rejected[OF transaction_unavailable[OF Some False]]) simp
  next
    case True
    show thesis
    proof (cases "availableSeats ti < int (length (reqPassengers req))")
      case True
      show thesis
        by (rule rejected[OF transaction_insufficient[OF Some \<open>status ti = ''active''\<close> True]]) blast
    next
      case False
      then have cap: "int (length (reqPassengers req)) \<le> availableSeats ti" by simp
      show thesis
      proof (rule transaction_outcomes[OF Some True cap writeState_def, of e])
        assume "\<forall>row. tripInstances (db (writeState req w)) (reqTripInstanceId req) = Some row \<longrightarrow> version row \<noteq> version ti"
          "transaction e req w =
         (Inl (Error ''CONCURRENT_MODIFICATION''),
          logQuery (UpdateManyTripInstance (reqTripInstanceId req) (version ti)) (writeState req w))"
        then show thesis by (rule conflict[OF Some])
      next
        fix row r cands w'
        assume "tripInstances (db (writeState req w)) (reqTripInstanceId req) = Some row" "version row = version ti"
          "length cands = 10" "set cands \<subseteq> set (bookingRefs (db (writeState req w)))" "r \<in> set (bookingRefs (db (writeState req w)))"
          "transaction e req w =
             (Inl (JsError ''PrismaClientKnownRequestError'' (uniqueConstraintMessage e)), w')"
          "db w' = db (writeState req w)"
          "queries w' = queries (writeState req w) @ UpdateManyTripInstance (reqTripInstanceId req) (version ti)
                      # map FindUniqueBooking cands @ [CreateBooking r]"
          "writers w' = writers (writeState req w)" "timeouts w' = timeouts (writeState req w)"
        then show thesis by (rule duplicate[OF Some])
      next
        fix row r cands w'
        assume "tripInstances (db (writeState req w)) (reqTripInstanceId req) = Some row" "version row = version ti"
          "length cands \<le> 10" "r \<notin> set (bookingRefs (db (writeState req w)))"
          "transaction e req w = (Inr (bookingData req ti r), w')"
          "db w' = \<lparr>tripInstances = (tripInstances (db (writeState req w)))(reqTripInstanceId req \<mapsto>
                   row\<lparr>availableSeats := availableSeats ti - int (length (reqPassengers req)),
                       version := version ti + 1\<rparr>),
                bookings = bookings (db (writeState req w)) @ [bookingData req ti r]\<rparr>"
          "queries w' = queries (writeState req w) @ UpdateManyTripInstance (reqTripInstanceId req) (version ti)
                      # map FindUniqueBooking cands @ [CreateBooking r]"
          "writers w' = writers (writeState req w)" "timeouts w' = timeouts (writeState req w)"
        then show thesis by (rule created[OF Some True cap])
      qed
    qed
  qed
qed

section \<open>Properties of the retry loop\<close>

lemma transaction_tripReads: "tripReads (snd (transaction e req w)) = tripReads w + 1"
  by (rule transaction_summary[of e req w])
     (auto simp: tripReads_def logQuery_def writeState_queries)

lemma transaction_timeouts: "timeouts (snd (transaction e req w)) = timeouts w"
  by (rule transaction_summary[of e req w])
     (auto simp: logQuery_def writeState_timeouts)

lemma digits_nonempty: "digits n \<noteq> []"
  by (subst digits.simps) simp

lemma transaction_errors:
  assumes "fst (transaction e req w) = Inl err"
  shows "err = Error ''CONCURRENT_MODIFICATION''
     \<or> err = JsError ''PrismaClientKnownRequestError'' (uniqueConstraintMessage e)
     \<or> (message err \<noteq> ''CONCURRENT_MODIFICATION''
          \<and> (err = Error ''Trip not found'' \<or> err = Error ''Trip is no longer available''
             \<or> (\<exists>n. err = Error (''Only '' @ String_of_int n @ '' seats available''))))"
proof (rule transaction_summary[of e req w])
  fix err'
  assume t: "transaction e req w = (Inl err', logQuery (FindUniqueTripInstance (reqTripInstanceId req)) w)"
    and k: "err' = Error ''Trip not found'' \<or> err' = Error ''Trip is no longer available''
         \<or> (\<exists>n. err' = Error (''Only '' @ String_of_int n @ '' seats available''))"
  have e: "err' = err" using assms t by simp
  have "message err' \<noteq> ''CONCURRENT_MODIFICATION''"
    using k by (elim disjE exE) (simp_all add: Error_def)
  then show ?thesis using k e by blast
next
  fix ti
  assume "transaction e req w =
         (Inl (Error ''CONCURRENT_MODIFICATION''),
          logQuery (UpdateManyTripInstance (reqTripInstanceId req) (version ti)) (writeState req w))"
  then show ?thesis using assms by simp
next
  fix w'
  assume "transaction e req w =
         (Inl (JsError ''PrismaClientKnownRequestError'' (uniqueConstraintMessage e)), w')"
  then show ?thesis using assms by simp
next
  fix ti r w'
  assume "transaction e req w = (Inr (bookingData req ti r), w')"
  then show ?thesis using assms by simp
qed

lemma bookingLoop_success:
  "0 < retries \<Longrightarrow> transaction e req w = (Inr b, w1) \<Longrightarrow>
   bookingLoop e req retries None w = (Inr (Some b), w1)"
  by (subst bookingLoop.simps) simp

lemma bookingLoop_retry:
  "1 < retries \<Longrightarrow> transaction e req w = (Inl err, w1) \<Longrightarrow>
   message err = ''CONCURRENT_MODIFICATION'' \<Longrightarrow>
   bookingLoop e req retries None w = bookingLoop e req (retries - 1) None (setTimeout 100 w1)"
  by (subst bookingLoop.simps) simp

lemma bookingLoop_abort:
  "0 < retries \<Longrightarrow> transaction e req w = (Inl err, w1) \<Longrightarrow>
   message err \<noteq> ''CONCURRENT_MODIFICATION'' \<or> retries = 1 \<Longrightarrow>
   bookingLoop e req retries None w = (Inl err, w1)"
  by (subst bookingLoop.simps) auto

lemma bookingLoop_bounds:
  "0 < retries \<Longrightarrow>
   \<exists>k. 1 \<le> k \<and> k \<le> retries
     \<and> tripReads (snd (bookingLoop e req retries None w)) = tripReads w + k
     \<and> timeouts (snd (bookingLoop e req retries None w)) = timeouts w @ replicate (k - 1) 100
     \<and> fst (bookingLoop e req retries None w) \<noteq> Inr None
     \<and> (k < retries \<longrightarrow> (\<forall>err. fst (bookingLoop e req retries None w) = Inl err \<longrightarrow> message err \<noteq> ''CONCURRENT_MODIFICATION''))"
proof (induction retries arbitrary: w)
  case 0
  then show ?case by simp
next
  case (Suc n)
  obtain res w1 where t: "transaction e req w = (res, w1)" by (cases "transaction e req w")
  have r1: "tripReads w1 = tripReads w + 1" using transaction_tripReads[of e req w] t by simp
  have t1: "timeouts w1 = timeouts w" using transaction_timeouts[of e req w] t by simp
  show ?case
  proof (cases res)
    case (Inr b)
    then have "bookingLoop e req (Suc n) None w = (Inr (Some b), w1)"
      using bookingLoop_success[of "Suc n" e req w b w1] t by simp
    then show ?thesis using r1 t1 by (intro exI[of _ 1]) simp
  next
    case (Inl err)
    show ?thesis
    proof (cases "message err = ''CONCURRENT_MODIFICATION'' \<and> 1 < Suc n")
      case False
      then have "bookingLoop e req (Suc n) None w = (Inl err, w1)"
        using bookingLoop_abort[of "Suc n" e req w err w1] t Inl by auto
      then show ?thesis using r1 t1 False by (intro exI[of _ 1]) auto
    next
      case True
      then have n: "0 < n" by simp
      let ?w2 = "setTimeout 100 w1"
      have unf: "bookingLoop e req (Suc n) None w = bookingLoop e req n None ?w2"
        using bookingLoop_retry[of "Suc n" e req w err w1] t Inl True by simp
      have r2: "tripReads ?w2 = tripReads w + 1" using r1 by (simp add: setTimeout_def tripReads_def)
      have t2: "timeouts ?w2 = timeouts w @ [100]" using t1 by (simp add: setTimeout_def)
      from Suc.IH[OF n, of ?w2] obtain k where k: "1 \<le> k" "k \<le> n"
        "tripReads (snd (bookingLoop e req n None ?w2)) = tripReads ?w2 + k"
        "timeouts (snd (bookingLoop e req n None ?w2)) = timeouts ?w2 @ replicate (k - 1) 100"
        "fst (bookingLoop e req n None ?w2) \<noteq> Inr None"
        "k < n \<longrightarrow> (\<forall>err. fst (bookingLoop e req n None ?w2) = Inl err \<longrightarrow> message err \<noteq> ''CONCURRENT_MODIFICATION'')"
        by blast
      have rep: "[100] @ replicate (k - 1) (100::nat) = replicate (Suc k - 1) 100"
        using k(1) by (cases k) simp_all
      show ?thesis
        unfolding unf
        using k r2 t2 rep by (intro exI[of _ "Suc k"]) auto
    qed
  qed
qed

section \<open>The invariant of concurrent requests\<close>

lemma bookedSeats_nonneg: "0 \<le> bookedSeats d i"
proof -
  have "0 \<le> (\<Sum>b \<leftarrow> bs. int (length (passengers b)))" for bs :: "booking list"
    by (induction bs) simp_all
  then show ?thesis by (simp add: bookedSeats_def)
qed

lemma bookedSeats_append:
  "bookedSeats \<lparr>tripInstances = t, bookings = bookings d @ [b]\<rparr> i =
     bookedSeats d i
       + (if tripInstanceId b = i \<and> bookingStatus b = ''confirmed''
          then int (length (passengers b)) else 0)"
  by (simp add: bookedSeats_def)

lemma bookingData_fields [simp]:
  "tripInstanceId (bookingData req ti r) = reqTripInstanceId req"
  "bookingStatus (bookingData req ti r) = ''confirmed''"
  "length (passengers (bookingData req ti r)) = length (reqPassengers req)"
  by (simp_all add: bookingData_def)

lemma readAndCheck_world:
  "snd (readAndCheck req w) = logQuery (FindUniqueTripInstance (reqTripInstanceId req)) w"
  by (simp add: readAndCheck_def findUniqueTripInstance_def split: option.splits)

lemma readAndCheck_Inr:
  "fst (readAndCheck req w) = Inr ti \<Longrightarrow>
   tripInstances (db w) (reqTripInstanceId req) = Some ti
   \<and> status ti = ''active'' \<and> int (length (reqPassengers req)) \<le> availableSeats ti"
  by (auto simp: readAndCheck_def findUniqueTripInstance_def split: option.splits if_splits)

lemma step_Begin_db: "db (shared (step e (Begin c req) s)) = db (shared s)"
proof -
  obtain res w1 where r: "readAndCheck req (shared s) = (res, w1)"
    by (cases "readAndCheck req (shared s)")
  then have "w1 = logQuery (FindUniqueTripInstance (reqTripInstanceId req)) (shared s)"
    using readAndCheck_world[of req "shared s"] by simp
  then show ?thesis using r by (cases res) (simp_all add: logQuery_def)
qed

lemma step_Begin_inflight:
  "inflight (step e (Begin c req) s) =
     (inflight s)(c := (case fst (readAndCheck req (shared s)) of
                          Inl err \<Rightarrow> None | Inr ti \<Rightarrow> Some (req, ti)))"
proof -
  obtain res w1 where r: "readAndCheck req (shared s) = (res, w1)"
    by (cases "readAndCheck req (shared s)")
  then show ?thesis by (cases res) simp_all
qed

text \<open>What a commit does to the database: nothing, or the decrement together with the booking.\<close>

lemma step_Commit_cases:
  obtains
    (idle) "inflight s c = None" "step e (Commit c) s = s"
  | (failed) req snap where "inflight s c = Some (req, snap)"
      "db (shared (step e (Commit c) s)) = db (shared s)"
      "inflight (step e (Commit c) s) = (inflight s)(c := None)"
  | (committed) req snap row r where "inflight s c = Some (req, snap)"
      "tripInstances (db (shared s)) (reqTripInstanceId req) = Some row"
      "version row = version snap" "r \<notin> set (bookingRefs (db (shared s)))"
      "db (shared (step e (Commit c) s)) =
         \<lparr>tripInstances = (tripInstances (db (shared s)))(reqTripInstanceId req \<mapsto>
            row\<lparr>availableSeats := availableSeats snap - int (length (reqPassengers req)),
                version := version snap + 1\<rparr>),
          bookings = bookings (db (shared s)) @ [bookingData req snap r]\<rparr>"
      "inflight (step e (Commit c) s) = (inflight s)(c := None)"
proof (cases "inflight s c")
  case None
  then show thesis by (intro idle) simp_all
next
  case (Some p)
  obtain req snap where p: "p = (req, snap)" by (cases p)
  note fl = Some[unfolded p]
  show thesis
  proof (rule reserveAndCreate_outcomes[of "shared s" req snap e])
    assume "reserveAndCreate e req snap (shared s) =
         (Inl (Error ''CONCURRENT_MODIFICATION''),
          logQuery (UpdateManyTripInstance (reqTripInstanceId req) (version snap)) (shared s))"
    then show thesis using fl by (intro failed[of req snap]) simp_all
  next
    fix w'
    assume "reserveAndCreate e req snap (shared s) =
         (Inl (JsError ''PrismaClientKnownRequestError'' (uniqueConstraintMessage e)), w')"
    then show thesis using fl by (intro failed[of req snap]) simp_all
  next
    fix row r w'
    assume "tripInstances (db (shared s)) (reqTripInstanceId req) = Some row"
      "version row = version snap" "r \<notin> set (bookingRefs (db (shared s)))"
      "reserveAndCreate e req snap (shared s) = (Inr (bookingData req snap r), w')"
      "db w' = \<lparr>tripInstances = (tripInstances (db (shared s)))(reqTripInstanceId req \<mapsto>
                   row\<lparr>availableSeats := availableSeats snap - int (length (reqPassengers req)),
                       version := version snap + 1\<rparr>),
                bookings = bookings (db (shared s)) @ [bookingData req snap r]\<rparr>"
    then show thesis using fl by (intro committed[of req snap row r]) simp_all
  qed
qed

declare step.simps [simp del]

lemma step_Begin_invariant:
  assumes c: "consistent (db (shared s))" and k: "snapshotsOk s"
  shows "consistent (db (shared (step e (Begin c req) s))) \<and> snapshotsOk (step e (Begin c req) s)"
proof
  show "consistent (db (shared (step e (Begin c req) s)))"
    using c by (simp add: step_Begin_db)
  show "snapshotsOk (step e (Begin c req) s)"
    unfolding snapshotsOk_def
  proof (intro allI impI)
    fix c' req' snap'
    assume a: "inflight (step e (Begin c req) s) c' = Some (req', snap')"
    show "int (length (reqPassengers req')) \<le> availableSeats snap'
      \<and> (\<exists>row. tripInstances (db (shared (step e (Begin c req) s))) (reqTripInstanceId req') = Some row
             \<and> version snap' \<le> version row
             \<and> (version row = version snap' \<longrightarrow> row = snap'))"
    proof (cases "c' = c")
      case True
      then have "fst (readAndCheck req (shared s)) = Inr snap'" and "req' = req"
        using a by (auto simp: step_Begin_inflight split: sum.splits)
      then show ?thesis using readAndCheck_Inr[of req "shared s" snap']
        by (simp add: step_Begin_db)
    next
      case False
      then have "inflight s c' = Some (req', snap')"
        using a by (simp add: step_Begin_inflight)
      from k[unfolded snapshotsOk_def, rule_format, OF this]
      show ?thesis by (simp add: step_Begin_db)
    qed
  qed
qed

lemma step_Commit_invariant:
  assumes c: "consistent (db (shared s))" and k: "snapshotsOk s"
  shows "consistent (db (shared (step e (Commit c) s))) \<and> snapshotsOk (step e (Commit c) s)"
proof (rule step_Commit_cases[of s c e])
  assume "step e (Commit c) s = s"
  then show ?thesis using c k by simp
next
  fix req snap
  assume d: "db (shared (step e (Commit c) s)) = db (shared s)"
    and f: "inflight (step e (Commit c) s) = (inflight s)(c := None)"
  have "snapshotsOk (step e (Commit c) s)"
    using k unfolding snapshotsOk_def d f by (auto split: if_splits)
  then show ?thesis using c d by simp
next
  fix req snap row r
  assume fl: "inflight s c = Some (req, snap)"
    and row: "tripInstances (db (shared s)) (reqTripInstanceId req) = Some row"
    and v: "version row = version snap"
    and d: "db (shared (step e (Commit c) s)) =
         \<lparr>tripInstances = (tripInstances (db (shared s)))(reqTripInstanceId req \<mapsto>
            row\<lparr>availableSeats := availableSeats snap - int (length (reqPassengers req)),
                version := version snap + 1\<rparr>),
          bookings = bookings (db (shared s)) @ [bookingData req snap r]\<rparr>"
    and f: "inflight (step e (Commit c) s) = (inflight s)(c := None)"
  let ?i = "reqTripInstanceId req"
  let ?n = "int (length (reqPassengers req))"
  from k[unfolded snapshotsOk_def, rule_format, OF fl] obtain row0 where
    n: "?n \<le> availableSeats snap" and
    r0: "tripInstances (db (shared s)) ?i = Some row0" "version row0 = version snap \<longrightarrow> row0 = snap"
    by blast
  from r0 row v have same: "row = snap" by simp
  from c row have old: "0 \<le> availableSeats row"
    "availableSeats row + bookedSeats (db (shared s)) ?i \<le> capacity (trip row)"
    by (auto simp: consistent_def)
  have cons: "consistent (db (shared (step e (Commit c) s)))"
    unfolding consistent_def d
  proof (intro allI impI)
    fix j tj
    assume a: "tripInstances \<lparr>tripInstances = (tripInstances (db (shared s)))(?i \<mapsto>
            row\<lparr>availableSeats := availableSeats snap - ?n, version := version snap + 1\<rparr>),
          bookings = bookings (db (shared s)) @ [bookingData req snap r]\<rparr> j = Some tj"
    show "0 \<le> availableSeats tj \<and>
       availableSeats tj
         + bookedSeats \<lparr>tripInstances = (tripInstances (db (shared s)))(?i \<mapsto>
              row\<lparr>availableSeats := availableSeats snap - ?n, version := version snap + 1\<rparr>),
            bookings = bookings (db (shared s)) @ [bookingData req snap r]\<rparr> j
         \<le> capacity (trip tj)"
    proof (cases "j = ?i")
      case True
      then have tj: "tj = row\<lparr>availableSeats := availableSeats snap - ?n, version := version snap + 1\<rparr>"
        using a by simp
      show ?thesis unfolding bookedSeats_append tj using True n old same by simp
    next
      case False
      then have "tripInstances (db (shared s)) j = Some tj" using a by simp
      then have "0 \<le> availableSeats tj"
        "availableSeats tj + bookedSeats (db (shared s)) j \<le> capacity (trip tj)"
        using c by (auto simp: consistent_def)
      then show ?thesis unfolding bookedSeats_append using False by simp
    qed
  qed
  have snaps: "snapshotsOk (step e (Commit c) s)"
    unfolding snapshotsOk_def f
  proof (intro allI impI)
    fix c' req' snap'
    assume a: "((inflight s)(c := None)) c' = Some (req', snap')"
    then have fl': "inflight s c' = Some (req', snap')" by (auto split: if_splits)
    from k[unfolded snapshotsOk_def, rule_format, OF fl'] obtain row' where r':
      "int (length (reqPassengers req')) \<le> availableSeats snap'"
      "tripInstances (db (shared s)) (reqTripInstanceId req') = Some row'"
      "version snap' \<le> version row'" "version row' = version snap' \<longrightarrow> row' = snap'"
      by blast
    show "int (length (reqPassengers req')) \<le> availableSeats snap'
      \<and> (\<exists>rw. tripInstances (db (shared (step e (Commit c) s))) (reqTripInstanceId req') = Some rw
             \<and> version snap' \<le> version rw
             \<and> (version rw = version snap' \<longrightarrow> rw = snap'))"
    proof (cases "reqTripInstanceId req' = ?i")
      case True
      then have "row' = row" using r'(2) row by simp
      then show ?thesis unfolding d using True r' v by simp
    next
      case False
      then show ?thesis unfolding d using r' by simp
    qed
  qed
  from cons snaps show ?thesis ..
qed

lemma step_invariant:
  "consistent (db (shared s)) \<Longrightarrow> snapshotsOk s \<Longrightarrow>
   consistent (db (shared (step e ev s))) \<and> snapshotsOk (step e ev s)"
  by (cases ev) (simp_all only: step_Begin_invariant step_Commit_invariant)

lemma run_invariant:
  "consistent (db (shared s)) \<Longrightarrow> snapshotsOk s \<Longrightarrow>
   consistent (db (shared (run e evs s))) \<and> snapshotsOk (run e evs s)"
proof (induction evs arbitrary: s)
  case Nil
  then show ?case by simp
next
  case (Cons ev evs)
  from step_invariant[OF Cons.prems, of e ev]
  have "consistent (db (shared (step e ev s)))" "snapshotsOk (step e ev s)" by simp_all
  from Cons.IH[OF this] show ?case by simp
qed

text \<open>
  One step on a state that satisfies the invariant leaves a row as it is or takes seats
  from it and raises its version by one.
\<close>

lemma step_row:
  assumes k: "snapshotsOk s" and ti: "tripInstances (db (shared s)) i = Some ti"
  shows "\<exists>ti'. tripInstances (db (shared (step e ev s))) i = Some ti'
     \<and> (ti' = ti
        \<or> (\<exists>n. 0 \<le> n \<and> n \<le> availableSeats ti
              \<and> ti' = ti\<lparr>availableSeats := availableSeats ti - n, version := version ti + 1\<rparr>))"
proof (cases ev)
  case (Begin c req)
  then show ?thesis using ti by (simp add: step_Begin_db)
next
  case (Commit c)
  have "\<exists>ti'. tripInstances (db (shared (step e (Commit c) s))) i = Some ti'
     \<and> (ti' = ti
        \<or> (\<exists>n. 0 \<le> n \<and> n \<le> availableSeats ti
              \<and> ti' = ti\<lparr>availableSeats := availableSeats ti - n, version := version ti + 1\<rparr>))"
    (is ?goal)
  proof (rule step_Commit_cases[of s c e])
    assume "step e (Commit c) s = s"
    then show ?goal using ti by simp
  next
    assume "db (shared (step e (Commit c) s)) = db (shared s)"
    then show ?goal using ti by simp
  next
    fix req snap row r
    assume fl: "inflight s c = Some (req, snap)"
      and row: "tripInstances (db (shared s)) (reqTripInstanceId req) = Some row"
      and v: "version row = version snap"
      and d: "db (shared (step e (Commit c) s)) =
         \<lparr>tripInstances = (tripInstances (db (shared s)))(reqTripInstanceId req \<mapsto>
            row\<lparr>availableSeats := availableSeats snap - int (length (reqPassengers req)),
                version := version snap + 1\<rparr>),
          bookings = bookings (db (shared s)) @ [bookingData req snap r]\<rparr>"
    from k[unfolded snapshotsOk_def, rule_format, OF fl] obtain row0 where
      n: "int (length (reqPassengers req)) \<le> availableSeats snap" and
      r0: "tripInstances (db (shared s)) (reqTripInstanceId req) = Some row0"
        "version row0 = version snap \<longrightarrow> row0 = snap"
      by blast
    from r0 row v have same: "row = snap" by simp
    show ?goal
    proof (cases "i = reqTripInstanceId req")
      case False
      then show ?goal unfolding d using ti by simp
    next
      case True
      then have "ti = snap" using ti row same by simp
      then show ?goal unfolding d using True n same
        by (intro exI[of _ "snap\<lparr>availableSeats := availableSeats snap - int (length (reqPassengers req)),
                version := version snap + 1\<rparr>"])
           (auto intro!: exI[of _ "int (length (reqPassengers req))"])
    qed
  qed
  then show ?thesis unfolding Commit .
qed

lemma run_row:
  "consistent (db (shared s)) \<Longrightarrow> snapshotsOk s \<Longrightarrow> tripInstances (db (shared s)) i = Some ti \<Longrightarrow>
   \<exists>ti'. tripInstances (db (shared (run e evs s))) i = Some ti'
      \<and> trip ti' = trip ti \<and> status ti' = status ti \<and> version ti \<le> version ti'"
proof (induction evs arbitrary: s ti)
  case Nil
  then show ?case by simp
next
  case (Cons ev evs)
  from step_row[OF Cons.prems(2,3), of e ev] obtain t1 where
    t1: "tripInstances (db (shared (step e ev s))) i = Some t1"
    "trip t1 = trip ti" "status t1 = status ti" "version ti \<le> version t1"
    by auto
  from step_invariant[OF Cons.prems(1,2), of e ev]
  have inv: "consistent (db (shared (step e ev s)))" "snapshotsOk (step e ev s)" by simp_all
  from Cons.IH[OF inv t1(1)] t1 show ?case by auto
qed

lemma step_distinct:
  "distinct (bookingRefs (db (shared s))) \<Longrightarrow> distinct (bookingRefs (db (shared (step e ev s))))"
proof (cases ev)
  case (Begin c req)
  assume "distinct (bookingRefs (db (shared s)))"
  then show ?thesis unfolding Begin by (simp add: step_Begin_db)
next
  case (Commit c)
  assume a: "distinct (bookingRefs (db (shared s)))"
  have "distinct (bookingRefs (db (shared (step e (Commit c) s))))" (is ?goal)
  proof (rule step_Commit_cases[of s c e])
    assume "step e (Commit c) s = s"
    then show ?goal using a by simp
  next
    assume "db (shared (step e (Commit c) s)) = db (shared s)"
    then show ?goal using a by simp
  next
    fix req snap row r
    assume "r \<notin> set (bookingRefs (db (shared s)))"
      and "db (shared (step e (Commit c) s)) =
         \<lparr>tripInstances = (tripInstances (db (shared s)))(reqTripInstanceId req \<mapsto>
            row\<lparr>availableSeats := availableSeats snap - int (length (reqPassengers req)),
                version := version snap + 1\<rparr>),
          bookings = bookings (db (shared s)) @ [bookingData req snap r]\<rparr>"
    then show ?goal using a by (simp add: bookingRefs_def)
  qed
  then show ?thesis unfolding Commit .
qed

lemma run_distinct:
  "distinct (bookingRefs (db (shared s))) \<Longrightarrow> distinct (bookingRefs (db (shared (run e evs s))))"
  by (induction evs arbitrary: s) (simp_all add: step_distinct)

lemma snapshotsOk_idle: "inflight s = Map.empty \<Longrightarrow> snapshotsOk s"
  by (simp add: snapshotsOk_def)

section \<open>The first candidate of the reference search\<close>

lemma uniqueRef_loop_first:
  "a < 10 \<Longrightarrow> \<exists>qs. queries (snd (uniqueRef_loop e a ref w)) = queries w @ FindUniqueBooking ref # qs"
proof (cases "ref \<in> set (bookingRefs (db w))")
  case False
  assume "a < 10"
  from uniqueRef_loop_free[OF this False, of e] show ?thesis by (simp add: logQuery_def)
next
  case True
  assume a: "a < 10"
  let ?w2 = "(logQuery (FindUniqueBooking ref) w)\<lparr>calls := calls w + 6\<rparr>"
  from uniqueRef_loop_candidates[of e "a + 1" "fst (generateBookingRef e (logQuery (FindUniqueBooking ref) w))" ?w2]
  obtain cands where "queries (snd (uniqueRef_loop e (a + 1) (fst (generateBookingRef e (logQuery (FindUniqueBooking ref) w))) ?w2))
      = queries ?w2 @ map FindUniqueBooking cands" by blast
  then show ?thesis
    unfolding uniqueRef_loop_collision[OF a True, of e] by (simp add: logQuery_def)
qed

section \<open>Validation\<close>

lemma bookingSchema_rejects:
  assumes "issuesOf (stringMin1 ''Trip instance ID is required'' [Key ''tripInstanceId'']
                     (property kvs ''tripInstanceId'')) \<noteq> []
     \<or> issuesOf (passengerArray e [Key ''passengers''] (property kvs ''passengers'')) \<noteq> []
     \<or> issuesOf (stringEmail e ''Valid email is required'' [Key ''contactEmail'']
                      (property kvs ''contactEmail'')) \<noteq> []
     \<or> issuesOf (stringMin1 ''Contact phone is required'' [Key ''contactPhone'']
                      (property kvs ''contactPhone'')) \<noteq> []"
  shows "\<exists>issues. bookingSchema e (JObject kvs) = Inl issues \<and> issues \<noteq> []"
  using assms
  by (auto simp: bookingSchema_def Let_def issuesOf_def split: sum.splits)

lemma find_append_fresh:
  "r \<notin> set (map bookingRef bs) \<Longrightarrow> bookingRef b = r \<Longrightarrow>
   find (\<lambda>x. bookingRef x = r) (bs @ [b]) = Some b"
  by (induction bs) auto

lemmas system_defs = step.simps run.simps consistent_def bookedSeats_def

section \<open>The transaction after a write that matched\<close>

lemma reserveAndCreate_unfold:
  "reserveAndCreate e req ti w =
     (if fst (conditionalWrite req ti w) = 0 then
        (Inl (Error ''CONCURRENT_MODIFICATION''), snd (conditionalWrite req ti w))
      else
        createBooking e
          (bookingData req ti
             (fst (uniqueRef_loop e 0
                     (fst (generateBookingRef e (snd (conditionalWrite req ti w))))
                     (snd (generateBookingRef e (snd (conditionalWrite req ti w)))))))
          (snd (uniqueRef_loop e 0
                  (fst (generateBookingRef e (snd (conditionalWrite req ti w))))
                  (snd (generateBookingRef e (snd (conditionalWrite req ti w)))))))"
  by (simp add: reserveAndCreate_def case_prod_beta)

lemma conditionalWrite_bookings:
  "bookings (db (snd (conditionalWrite req ti w))) = bookings (db w)"
  by (simp add: conditionalWrite_db split: option.splits)


lemma conditionalWrite_queries:
  "queries (snd (conditionalWrite req ti w))
     = queries w @ [UpdateManyTripInstance (reqTripInstanceId req) (version ti)]"
  by (simp add: conditionalWrite_def updateManyTripInstance_def logQuery_def Let_def
           split: option.splits)

lemma search_db:
  "db (snd (uniqueRef_loop e 0 (fst (generateBookingRef e w)) (snd (generateBookingRef e w)))) = db w"
proof -
  have "db (snd (generateBookingRef e w)) = db w" by (simp add: generateBookingRef_world)
  then show ?thesis
    using uniqueRef_loop_candidates[of e 0 "fst (generateBookingRef e w)" "snd (generateBookingRef e w)"]
    by auto
qed

lemma search_queries:
  "\<exists>cands. queries (snd (uniqueRef_loop e 0 (fst (generateBookingRef e w)) (snd (generateBookingRef e w))))
     = queries w @ map FindUniqueBooking cands"
proof -
  have "queries (snd (generateBookingRef e w)) = queries w" by (simp add: generateBookingRef_world)
  then show ?thesis
    using uniqueRef_loop_candidates[of e 0 "fst (generateBookingRef e w)" "snd (generateBookingRef e w)"]
    by auto
qed

text \<open>
  The whole outcome of a transaction whose checks pass and whose conditional write matches:
  decided by whether the reference its search ends with is taken.
\<close>

lemma transaction_matched:
  assumes ti: "tripInstances (db w) (reqTripInstanceId req) = Some ti"
    and act: "status ti = ''active''"
    and cap: "int (length (reqPassengers req)) \<le> availableSeats ti"
    and row: "tripInstances (db (writeState req w)) (reqTripInstanceId req) = Some row"
    and v: "version row = version ti"
  shows "chosenRef e req ti w \<notin> set (bookingRefs (db (writeState req w))) \<Longrightarrow>
       fst (transaction e req w) = Inr (bookingData req ti (chosenRef e req ti w))
     \<and> db (snd (transaction e req w)) =
         (db (writtenState req ti w))\<lparr>bookings :=
            bookings (db (writeState req w)) @ [bookingData req ti (chosenRef e req ti w)]\<rparr>"
    and "chosenRef e req ti w \<in> set (bookingRefs (db (writeState req w))) \<Longrightarrow>
       fst (transaction e req w)
         = Inl (JsError ''PrismaClientKnownRequestError'' (uniqueConstraintMessage e))
     \<and> db (snd (transaction e req w)) = db (writeState req w)"
    and "\<exists>qs. queries (snd (transaction e req w))
          = queries w @ [FindUniqueTripInstance (reqTripInstanceId req),
                         UpdateManyTripInstance (reqTripInstanceId req) (version ti)] @ qs"
proof -
  let ?W = "writeState req w"
  let ?cw = "conditionalWrite req ti ?W"
  let ?g = "generateBookingRef e (snd ?cw)"
  let ?u = "uniqueRef_loop e 0 (fst ?g) (snd ?g)"
  have cnt: "fst ?cw \<noteq> 0" using row v by (simp add: conditionalWrite_count)
  have r: "chosenRef e req ti w = fst ?u" by (simp add: chosenRef_def writtenState_def)
  have dbu: "db (snd ?u) = db (snd ?cw)" by (rule search_db)
  have refs: "bookingRefs (db (snd ?u)) = bookingRefs (db ?W)"
    unfolding dbu by (simp add: bookingRefs_def conditionalWrite_bookings)
  have rc: "reserveAndCreate e req ti ?W = createBooking e (bookingData req ti (fst ?u)) (snd ?u)"
    using cnt by (simp add: reserveAndCreate_unfold)
  note t = transaction_checked[OF ti act cap, of e, folded writeState_def]
  {
    assume fresh: "chosenRef e req ti w \<notin> set (bookingRefs (db ?W))"
    then have "bookingRef (bookingData req ti (fst ?u)) \<notin> set (bookingRefs (db (snd ?u)))"
      using r refs by simp
    from createBooking_created[OF this, of e]
    have "transaction e req w =
        (Inr (bookingData req ti (fst ?u)),
         (logQuery (CreateBooking (fst ?u)) (snd ?u))\<lparr>db := (db (snd ?u))\<lparr>bookings :=
             bookings (db (snd ?u)) @ [bookingData req ti (fst ?u)]\<rparr>\<rparr>)"
      unfolding t rc by simp
    then show "fst (transaction e req w) = Inr (bookingData req ti (chosenRef e req ti w))
     \<and> db (snd (transaction e req w)) =
         (db (writtenState req ti w))\<lparr>bookings :=
            bookings (db ?W) @ [bookingData req ti (chosenRef e req ti w)]\<rparr>"
      unfolding r dbu by (simp add: logQuery_def writtenState_def conditionalWrite_bookings)
  }
  {
    assume taken: "chosenRef e req ti w \<in> set (bookingRefs (db ?W))"
    then have "bookingRef (bookingData req ti (fst ?u)) \<in> set (bookingRefs (db (snd ?u)))"
      using r refs by simp
    from createBooking_duplicate[OF this, of e]
    have "transaction e req w =
        (Inl (JsError ''PrismaClientKnownRequestError'' (uniqueConstraintMessage e)),
         (logQuery (CreateBooking (fst ?u)) (snd ?u))\<lparr>db := db ?W\<rparr>)"
      unfolding t rc by simp
    then show "fst (transaction e req w)
         = Inl (JsError ''PrismaClientKnownRequestError'' (uniqueConstraintMessage e))
     \<and> db (snd (transaction e req w)) = db ?W"
      by simp
  }
  from search_queries[of e "snd ?cw"] obtain cands where
    qu: "queries (snd ?u) = queries (snd ?cw) @ map FindUniqueBooking cands" by blast
  have qcw: "queries (snd ?cw) = queries w @ [FindUniqueTripInstance (reqTripInstanceId req),
                         UpdateManyTripInstance (reqTripInstanceId req) (version ti)]"
    by (simp add: conditionalWrite_queries writeState_queries)
  have "queries (snd (transaction e req w)) = queries (snd ?u) @ [CreateBooking (fst ?u)]"
    unfolding t rc by (simp add: createBooking_def logQuery_def Let_def)
  then show "\<exists>qs. queries (snd (transaction e req w))
          = queries w @ [FindUniqueTripInstance (reqTripInstanceId req),
                         UpdateManyTripInstance (reqTripInstanceId req) (version ti)] @ qs"
    unfolding qu qcw by simp
qed

section \<open>Properties of the cancellation\<close>

lemma markCancelled_found:
  "find (\<lambda>b. bookingRef b = r \<and> bookingStatus b = ''confirmed'') bs = Some b \<Longrightarrow>
   \<exists>bs1 bs2. bs = bs1 @ b # bs2
      \<and> (\<forall>x \<in> set bs1. \<not> (bookingRef x = r \<and> bookingStatus x = ''confirmed''))
      \<and> markCancelled r now bs = bs1 @ cancelled now b # bs2"
proof (induction bs)
  case Nil
  then show ?case by simp
next
  case (Cons a bs)
  show ?case
  proof (cases "bookingRef a = r \<and> bookingStatus a = ''confirmed''")
    case True
    then have "a = b" using Cons.prems by simp
    then show ?thesis using True by (intro exI[of _ "[]"] exI[of _ bs]) simp
  next
    case False
    then have "find (\<lambda>b. bookingRef b = r \<and> bookingStatus b = ''confirmed'') bs = Some b"
      using Cons.prems by auto
    from Cons.IH[OF this] obtain bs1 bs2 where
      h: "bs = bs1 @ b # bs2"
      "\<forall>x \<in> set bs1. \<not> (bookingRef x = r \<and> bookingStatus x = ''confirmed'')"
      "markCancelled r now bs = bs1 @ cancelled now b # bs2"
      by blast
    show ?thesis using h False by (intro exI[of _ "a # bs1"] exI[of _ bs2]) auto
  qed
qed

lemma find_confirmed:
  "find (\<lambda>b. bookingRef b = r \<and> bookingStatus b = ''confirmed'') bs = Some b \<Longrightarrow>
   bookingRef b = r \<and> bookingStatus b = ''confirmed''"
  by (induction bs) (auto split: if_splits)

lemma markCancelled_refs: "map bookingRef (markCancelled r now bs) = map bookingRef bs"
  by (induction bs) (simp_all add: cancelled_def)

lemma otherWritersCommit_quiet: "writers w = [] \<Longrightarrow> otherWritersCommit w = w"
  by (simp add: otherWritersCommit_def)

lemma cancelAttempt_quiet:
  assumes b: "confirmedBooking r (db w) = Some b"
    and ti: "tripInstances (db w) (tripInstanceId b) = Some ti"
    and q: "writers w = []"
  shows "cancelAttempt r now w =
     (Inr (cancelled now b),
      w\<lparr>db := \<lparr>tripInstances = (tripInstances (db w))(tripInstanceId b \<mapsto>
                  ti\<lparr>availableSeats := availableSeats ti + int (length (passengers b)),
                     version := version ti + 1\<rparr>),
                bookings = markCancelled r now (bookings (db w))\<rparr>\<rparr>)"
  using b ti by (simp add: cancelAttempt_def Let_def otherWritersCommit_quiet[OF q])

lemma withRetry_final:
  "operation w = (outcome, w1) \<Longrightarrow> outcome \<noteq> Inl VersionConflict \<Longrightarrow>
   withRetry (Suc n) baseDelay operation w = (outcome, w1)"
  by (cases outcome) (auto split: failure.splits)

lemma withRetry_again:
  "operation w = (Inl VersionConflict, w1) \<Longrightarrow> 0 < n \<Longrightarrow>
   withRetry (Suc n) baseDelay operation w = withRetry n baseDelay operation (setTimeout baseDelay w1)"
  by simp

lemma cancelBooking_quiet:
  assumes b: "confirmedBooking r (db w) = Some b"
    and ti: "tripInstances (db w) (tripInstanceId b) = Some ti"
    and q: "writers w = []"
  shows "cancelBooking r now w =
     (Inr (cancelled now b),
      w\<lparr>db := \<lparr>tripInstances = (tripInstances (db w))(tripInstanceId b \<mapsto>
                  ti\<lparr>availableSeats := availableSeats ti + int (length (passengers b)),
                     version := version ti + 1\<rparr>),
                bookings = markCancelled r now (bookings (db w))\<rparr>\<rparr>)"
proof -
  have "withRetry (Suc 2) 100 (cancelAttempt r now) w =
     (Inr (cancelled now b),
      w\<lparr>db := \<lparr>tripInstances = (tripInstances (db w))(tripInstanceId b \<mapsto>
                  ti\<lparr>availableSeats := availableSeats ti + int (length (passengers b)),
                     version := version ti + 1\<rparr>),
                bookings = markCancelled r now (bookings (db w))\<rparr>\<rparr>)"
    by (rule withRetry_final[where operation = "cancelAttempt r now"])
       (simp_all add: cancelAttempt_quiet[OF b ti q])
  then show ?thesis by (simp add: cancelBooking_def numeral_3_eq_3)
qed

lemma cancelAttempt_cases:
  obtains
    (notFound) "cancelAttempt r now w = (Inl NotFound, w)"
  | (conflict) b ti where "confirmedBooking r (db w) = Some b"
      "tripInstances (db w) (tripInstanceId b) = Some ti"
      "\<forall>row. tripInstances (db (otherWritersCommit w)) (tripInstanceId b) = Some row
             \<longrightarrow> version row \<noteq> version ti"
      "cancelAttempt r now w = (Inl VersionConflict, otherWritersCommit w)"
  | (marked) b ti row where "confirmedBooking r (db w) = Some b"
      "tripInstances (db w) (tripInstanceId b) = Some ti"
      "tripInstances (db (otherWritersCommit w)) (tripInstanceId b) = Some row"
      "version row = version ti"
      "cancelAttempt r now w =
         (Inr (cancelled now b),
          (otherWritersCommit w)\<lparr>db :=
             \<lparr>tripInstances = (tripInstances (db (otherWritersCommit w)))(tripInstanceId b \<mapsto>
                 row\<lparr>availableSeats := availableSeats row + int (length (passengers b)),
                     version := version row + 1\<rparr>),
              bookings = markCancelled r now (bookings (db (otherWritersCommit w)))\<rparr>\<rparr>)"
proof (cases "confirmedBooking r (db w)")
  case None
  then show thesis by (intro notFound) (simp add: cancelAttempt_def Let_def)
next
  case (Some b)
  show thesis
  proof (cases "tripInstances (db w) (tripInstanceId b)")
    case None
    then show thesis using Some by (intro notFound) (simp add: cancelAttempt_def Let_def)
  next
    case ti: (Some ti)
    show thesis
    proof (cases "tripInstances (db (otherWritersCommit w)) (tripInstanceId b)")
      case None
      then show thesis using Some ti
        by (intro conflict[of b ti]) (simp_all add: cancelAttempt_def Let_def)
    next
      case row: (Some row)
      show thesis
      proof (cases "version row = version ti")
        case True
        then show thesis using Some ti row
          by (intro marked[of b ti row]) (simp_all add: cancelAttempt_def Let_def)
      next
        case False
        then show thesis using Some ti row
          by (intro conflict[of b ti]) (simp_all add: cancelAttempt_def Let_def)
      qed
    qed
  qed
qed

lemma find_append_fresh_confirmed:
  "r \<notin> set (map bookingRef bs) \<Longrightarrow> bookingRef b = r \<Longrightarrow> bookingStatus b = ''confirmed'' \<Longrightarrow>
   find (\<lambda>x. bookingRef x = r \<and> bookingStatus x = ''confirmed'') (bs @ [b]) = Some b"
  by (induction bs) auto

lemma bookedSeats_after_cancel:
  "bookings d = bs1 @ b # bs2 \<Longrightarrow> bookingStatus b = ''confirmed'' \<Longrightarrow>
   bookings d' = bs1 @ cancelled now b # bs2 \<Longrightarrow>
   bookedSeats d' i
     = bookedSeats d i - (if tripInstanceId b = i then int (length (passengers b)) else 0)"
  by (simp add: bookedSeats_def cancelled_def)

section \<open>The claims\<close>

subsection \<open>Capacity invariant\<close>

text \<open>
  C1. Start from a database in which every trip instance has between 0 and its capacity
  seats available, seats available and seats of confirmed bookings together within the
  capacity, and no request in flight. After any interleaving of the reads and commits of
  any booking requests, every trip instance is still there with the same trip and a
  version not below the one it had, its available seats are between 0 and the capacity,
  and the passengers of its confirmed bookings number at most the capacity. Any further
  step leaves a row as it is or takes a number of seats from it, between 0 and what it
  has, and raises its version by exactly one.
\<close>

theorem capacity_invariant:
  assumes "consistent (db (shared s))" and "inflight s = Map.empty"
  shows "(\<forall>i ti. tripInstances (db (shared s)) i = Some ti \<longrightarrow>
            (\<exists>ti'. tripInstances (db (shared (run e evs s))) i = Some ti'
               \<and> trip ti' = trip ti \<and> version ti \<le> version ti'
               \<and> 0 \<le> availableSeats ti' \<and> availableSeats ti' \<le> capacity (trip ti)
               \<and> bookedSeats (db (shared (run e evs s))) i \<le> capacity (trip ti)))
     \<and> (\<forall>ev i ti. tripInstances (db (shared (run e evs s))) i = Some ti \<longrightarrow>
           (\<exists>ti'. tripInstances (db (shared (step e ev (run e evs s)))) i = Some ti'
              \<and> (ti' = ti
                 \<or> (\<exists>n. 0 \<le> n \<and> n \<le> availableSeats ti
                       \<and> ti' = ti\<lparr>availableSeats := availableSeats ti - n,
                                   version := version ti + 1\<rparr>))))"
proof (intro conjI allI impI)
  note k = snapshotsOk_idle[OF assms(2)]
  note inv = run_invariant[OF assms(1) k, of e evs]
  {
    fix i ti
    assume ti: "tripInstances (db (shared s)) i = Some ti"
    from run_row[OF assms(1) k ti, of e evs] obtain ti' where
      t: "tripInstances (db (shared (run e evs s))) i = Some ti'"
      "trip ti' = trip ti" "version ti \<le> version ti'"
      by blast
    from inv t(1) have c: "0 \<le> availableSeats ti'"
      "availableSeats ti' + bookedSeats (db (shared (run e evs s))) i \<le> capacity (trip ti')"
      by (auto simp: consistent_def)
    have "availableSeats ti' \<le> capacity (trip ti)"
      using c(2) bookedSeats_nonneg[of "db (shared (run e evs s))" i] t(2) by simp
    moreover have "bookedSeats (db (shared (run e evs s))) i \<le> capacity (trip ti)"
      using c t(2) by simp
    ultimately show "\<exists>ti'. tripInstances (db (shared (run e evs s))) i = Some ti'
               \<and> trip ti' = trip ti \<and> version ti \<le> version ti'
               \<and> 0 \<le> availableSeats ti' \<and> availableSeats ti' \<le> capacity (trip ti)
               \<and> bookedSeats (db (shared (run e evs s))) i \<le> capacity (trip ti)"
      using t c(1) by blast
  }
  {
    fix ev i ti
    assume "tripInstances (db (shared (run e evs s))) i = Some ti"
    from step_row[OF conjunct2[OF inv] this, of e ev]
    show "\<exists>ti'. tripInstances (db (shared (step e ev (run e evs s)))) i = Some ti'
              \<and> (ti' = ti
                 \<or> (\<exists>n. 0 \<le> n \<and> n \<le> availableSeats ti
                       \<and> ti' = ti\<lparr>availableSeats := availableSeats ti - n,
                                   version := version ti + 1\<rparr>))" .
  }
qed

theorem capacity_invariant_witness:
  "consistent (db (shared exampleSystem)) \<and> inflight exampleSystem = Map.empty
   \<and> tripInstances (db (shared exampleSystem)) ''t1'' = Some exampleInstance
   \<and> tripInstances (db (shared (run variedEnv exampleEvents exampleSystem))) ''t1''
       = Some (exampleInstance\<lparr>availableSeats := 1, version := 2\<rparr>)
   \<and> bookedSeats (db (shared (run variedEnv exampleEvents exampleSystem))) ''t1'' = 4
   \<and> bookedSeats (db (shared (run variedEnv exampleEvents exampleSystem))) ''t1''
       \<le> capacity (trip exampleInstance)"
proof -
  have h1: "consistent (db (shared exampleSystem))"
    by (simp add: consistent_def bookedSeats_def example_defs)
  have h2: "inflight exampleSystem = Map.empty" by (simp add: exampleSystem_def)
  have h3: "tripInstances (db (shared exampleSystem)) ''t1'' = Some exampleInstance"
    by (simp add: example_defs)
  have ev: "tripInstances (db (shared (run variedEnv exampleEvents exampleSystem))) ''t1''
       = Some (exampleInstance\<lparr>availableSeats := 1, version := 2\<rparr>)"
    "bookedSeats (db (shared (run variedEnv exampleEvents exampleSystem))) ''t1'' = 4"
    by (simp_all add: system_defs run_defs example_defs)
  from capacity_invariant[OF h1 h2, of variedEnv exampleEvents, THEN conjunct1, rule_format, OF h3]
  have "bookedSeats (db (shared (run variedEnv exampleEvents exampleSystem))) ''t1''
       \<le> capacity (trip exampleInstance)" by blast
  with h1 h2 h3 ev show ?thesis by simp
qed

subsection \<open>A single attempt\<close>




subsection \<open>Retry policy\<close>

text \<open>
  C3. The retry loop. A transaction that fails with the message \<open>CONCURRENT_MODIFICATION\<close>
  while more than one try is left is followed by a wait of 100 ms, whichever try it was,
  and by the whole transaction again on the state then current, starting with a new read
  of the trip instance. A failure with any other message ends the loop at once with that
  error, with no wait and no further transaction: so for \<open>Trip not found\<close>,
  \<open>Trip is no longer available\<close>, \<open>Only n seats available\<close>, and for the store's
  unique-constraint error, its message not being the conflict marker. Starting from 3,
  the loop runs between one and three transactions and waits 100 ms between any two.
\<close>

theorem retry_policy:
  "(\<forall>err w1. transaction e req w = (Inl err, w1)
        \<and> message err = ''CONCURRENT_MODIFICATION'' \<and> 1 < retries \<longrightarrow>
      bookingLoop e req retries None w
        = bookingLoop e req (retries - 1) None (setTimeout 100 w1))
   \<and> (\<forall>err w1. transaction e req w = (Inl err, w1)
        \<and> message err \<noteq> ''CONCURRENT_MODIFICATION'' \<and> 0 < retries \<longrightarrow>
      bookingLoop e req retries None w = (Inl err, w1))
   \<and> (\<forall>err w1. transaction e req w = (Inl err, w1)
        \<and> err \<noteq> Error ''CONCURRENT_MODIFICATION''
        \<and> uniqueConstraintMessage e \<noteq> ''CONCURRENT_MODIFICATION'' \<and> 0 < retries \<longrightarrow>
      bookingLoop e req retries None w = (Inl err, w1))
   \<and> (\<forall>b w1. transaction e req w = (Inr b, w1) \<and> 0 < retries \<longrightarrow>
      bookingLoop e req retries None w = (Inr (Some b), w1))
   \<and> (\<exists>k. 1 \<le> k \<and> k \<le> 3
        \<and> tripReads (snd (bookingLoop e req 3 None w)) = tripReads w + k
        \<and> timeouts (snd (bookingLoop e req 3 None w)) = timeouts w @ replicate (k - 1) 100)"
proof (intro conjI allI impI)
  fix err w1
  assume "transaction e req w = (Inl err, w1)
        \<and> message err = ''CONCURRENT_MODIFICATION'' \<and> 1 < retries"
  then show "bookingLoop e req retries None w
        = bookingLoop e req (retries - 1) None (setTimeout 100 w1)"
    by (simp add: bookingLoop_retry)
next
  fix err w1
  assume "transaction e req w = (Inl err, w1)
        \<and> message err \<noteq> ''CONCURRENT_MODIFICATION'' \<and> 0 < retries"
  then show "bookingLoop e req retries None w = (Inl err, w1)"
    by (simp add: bookingLoop_abort)
next
  fix err w1
  assume a: "transaction e req w = (Inl err, w1)
        \<and> err \<noteq> Error ''CONCURRENT_MODIFICATION''
        \<and> uniqueConstraintMessage e \<noteq> ''CONCURRENT_MODIFICATION'' \<and> 0 < retries"
  then have "fst (transaction e req w) = Inl err" by simp
  from transaction_errors[OF this] a
  have "message err \<noteq> ''CONCURRENT_MODIFICATION''" by auto
  then show "bookingLoop e req retries None w = (Inl err, w1)"
    using a by (simp add: bookingLoop_abort)
next
  fix b w1
  assume "transaction e req w = (Inr b, w1) \<and> 0 < retries"
  then show "bookingLoop e req retries None w = (Inr (Some b), w1)"
    by (simp add: bookingLoop_success)
next
  from bookingLoop_bounds[of 3 e req w]
  show "\<exists>k. 1 \<le> k \<and> k \<le> 3
        \<and> tripReads (snd (bookingLoop e req 3 None w)) = tripReads w + k
        \<and> timeouts (snd (bookingLoop e req 3 None w)) = timeouts w @ replicate (k - 1) 100"
    by auto
qed

theorem retry_policy_witness:
  "fst (transaction exampleEnv exampleRequest contendedWorld) = Inl (Error ''CONCURRENT_MODIFICATION'')
   \<and> bookingLoop exampleEnv exampleRequest 3 None contendedWorld
       = bookingLoop exampleEnv exampleRequest 2 None
           (setTimeout 100 (snd (transaction exampleEnv exampleRequest contendedWorld)))
   \<and> fst (bookingLoop exampleEnv exampleRequest 3 None contendedWorld)
       = Inl (Error ''CONCURRENT_MODIFICATION'')
   \<and> timeouts (snd (bookingLoop exampleEnv exampleRequest 3 None contendedWorld)) = [100, 100]
   \<and> tripReads (snd (bookingLoop exampleEnv exampleRequest 3 None contendedWorld)) = 3
   \<and> fst (transaction exampleEnv strangerRequest exampleWorld) = Inl (Error ''Trip not found'')
   \<and> bookingLoop exampleEnv strangerRequest 3 None exampleWorld
       = (Inl (Error ''Trip not found''), snd (transaction exampleEnv strangerRequest exampleWorld))
   \<and> timeouts (snd (bookingLoop exampleEnv strangerRequest 3 None exampleWorld)) = []
   \<and> tripReads (snd (bookingLoop exampleEnv strangerRequest 3 None exampleWorld)) = 1"
proof -
  have c: "fst (transaction exampleEnv exampleRequest contendedWorld) = Inl (Error ''CONCURRENT_MODIFICATION'')"
    by (simp add: run_defs example_defs)
  then have c': "transaction exampleEnv exampleRequest contendedWorld
      = (Inl (Error ''CONCURRENT_MODIFICATION''), snd (transaction exampleEnv exampleRequest contendedWorld))
      \<and> message (Error ''CONCURRENT_MODIFICATION'') = ''CONCURRENT_MODIFICATION'' \<and> (1::nat) < 3"
    by (simp add: prod_eq_iff Error_def)
  have n: "fst (transaction exampleEnv strangerRequest exampleWorld) = Inl (Error ''Trip not found'')"
    by (simp add: run_defs example_defs)
  then have n': "transaction exampleEnv strangerRequest exampleWorld
      = (Inl (Error ''Trip not found''), snd (transaction exampleEnv strangerRequest exampleWorld))
      \<and> message (Error ''Trip not found'') \<noteq> ''CONCURRENT_MODIFICATION'' \<and> (0::nat) < 3"
    by (simp add: prod_eq_iff Error_def)
  note r1 = retry_policy[of exampleEnv exampleRequest contendedWorld 3, THEN conjunct1, rule_format, OF c']
  note r2 = retry_policy[of exampleEnv strangerRequest exampleWorld 3, THEN conjunct2, THEN conjunct1,
              rule_format, OF n']
  have l: "fst (bookingLoop exampleEnv exampleRequest 3 None contendedWorld)
       = Inl (Error ''CONCURRENT_MODIFICATION'')"
    "timeouts (snd (bookingLoop exampleEnv exampleRequest 3 None contendedWorld)) = [100, 100]"
    "tripReads (snd (bookingLoop exampleEnv exampleRequest 3 None contendedWorld)) = 3"
    by (simp_all add: bookingLoop.simps run_defs example_defs tripReads_def isTripRead_def)
  have m: "timeouts (snd (bookingLoop exampleEnv strangerRequest 3 None exampleWorld)) = []"
    "tripReads (snd (bookingLoop exampleEnv strangerRequest 3 None exampleWorld)) = 1"
    unfolding r2 by (simp_all add: run_defs example_defs tripReads_def isTripRead_def)
  from c r1 l n r2 m show ?thesis by simp
qed

subsection \<open>Contention\<close>

text \<open>
  C4 at its failing input: three transactions in a row meet the commit of a competing
  request between their read and their conditional write. The third conflict is thrown
  on, and the answer is status 500 with the text \<open>CONCURRENT_MODIFICATION\<close>, after three
  reads and two waits of 100 ms.
\<close>

theorem contention_answer:
  "fst (POST exampleEnv (Inr exampleBody) contendedWorld)
     = NextResponse_json (Thrown ''CONCURRENT_MODIFICATION'' ''Error'') 500
   \<and> tripReads (snd (POST exampleEnv (Inr exampleBody) contendedWorld)) = 3
   \<and> timeouts (snd (POST exampleEnv (Inr exampleBody) contendedWorld)) = [100, 100]"
proof -
  have b: "bookingSchema exampleEnv exampleBody = Inr exampleRequest"
    by (simp add: schema_defs example_defs)
  have du: "\<not> (DATABASE_URL exampleEnv = None \<or> DATABASE_URL exampleEnv = Some [])"
    by (simp add: exampleEnv_def)
  define w3 where "w3 = snd (bookingLoop exampleEnv exampleRequest 3 None contendedWorld)"
  have l: "bookingLoop exampleEnv exampleRequest 3 None contendedWorld
       = (Inl (Error ''CONCURRENT_MODIFICATION''), w3)"
    unfolding w3_def by (simp add: prod_eq_iff bookingLoop.simps run_defs example_defs)
  have p: "POST exampleEnv (Inr exampleBody) contendedWorld
     = (NextResponse_json (Thrown ''CONCURRENT_MODIFICATION'' ''Error'') 500, w3)"
    by (simp add: POST_def du b l caught_def Error_def)
  have "tripReads w3 = 3" "timeouts w3 = [100, 100]"
    unfolding w3_def
    by (simp_all add: bookingLoop.simps run_defs example_defs tripReads_def isTripRead_def)
  then show ?thesis unfolding p by simp
qed

text \<open>
  The branch of \<open>POST\<close> that answers 409 with an invitation to try again is never taken:
  the loop ends with a booking or with a thrown error.
\<close>

lemma try_again_answer_unreachable:
  "fst (POST e requestJson w)
     \<noteq> NextResponse_json (Failure ''Unable to complete booking. Please try again.'') 409"
proof (cases "DATABASE_URL e = None \<or> DATABASE_URL e = Some []")
  case True
  then show ?thesis by (auto simp: POST_def)
next
  case False
  show ?thesis
  proof (cases requestJson)
    case (Inl err)
    then show ?thesis using False by (simp add: POST_def caught_def)
  next
    case (Inr json)
    show ?thesis
    proof (cases "bookingSchema e json")
      case (Inl issues)
      then show ?thesis using False Inr by (simp add: POST_def)
    next
      case req: (Inr req)
      obtain res w1 where l: "bookingLoop e req 3 None w = (res, w1)"
        by (cases "bookingLoop e req 3 None w")
      have "res \<noteq> Inr None" using bookingLoop_bounds[of 3 e req w] l by auto
      then show ?thesis using False Inr req l
        by (cases res) (auto simp: POST_def caught_def split: option.splits)
    qed
  qed
qed

subsection \<open>Atomicity\<close>

text \<open>
  C5 (as amended). The conditional seat decrement, the booking and its passengers are one
  atomic unit. A transaction that fails, at whichever step, leaves none of its writes: the
  database is the one it started from, or that one with the commit of another request
  that landed before its conditional write, and with no such commit it is exactly the
  database it started from. A transaction that succeeds leaves both the decremented
  trip instance and the booking with one passenger row for each passenger of the request.
  In particular a request for at least one seat on an active trip instance with no seat
  available fails with \<open>Only 0 seats available\<close> and changes nothing.
\<close>

theorem all_or_nothing:
  "(\<forall>err. fst (transaction e req w) = Inl err \<longrightarrow>
       (db (snd (transaction e req w)) = db w
          \<or> db (snd (transaction e req w)) = db (writeState req w))
     \<and> (writers w = [] \<longrightarrow> db (snd (transaction e req w)) = db w))
   \<and> (\<forall>b. fst (transaction e req w) = Inr b \<longrightarrow>
        (\<exists>ti row.
           tripInstances (db w) (reqTripInstanceId req) = Some ti
         \<and> tripInstances (db (writeState req w)) (reqTripInstanceId req) = Some row
         \<and> db (snd (transaction e req w)) =
             \<lparr>tripInstances = (tripInstances (db (writeState req w)))(reqTripInstanceId req \<mapsto>
                 row\<lparr>availableSeats := availableSeats ti - int (length (reqPassengers req)),
                     version := version ti + 1\<rparr>),
              bookings = bookings (db (writeState req w)) @ [b]\<rparr>
         \<and> tripInstanceId b = reqTripInstanceId req
         \<and> length (passengers b) = length (reqPassengers req)))
   \<and> (\<forall>ti. tripInstances (db w) (reqTripInstanceId req) = Some ti \<and> status ti = ''active''
            \<and> availableSeats ti = 0 \<and> reqPassengers req \<noteq> [] \<longrightarrow>
          fst (transaction e req w) = Inl (Error ''Only 0 seats available'')
        \<and> db (snd (transaction e req w)) = db w)"
proof (intro conjI allI impI)
  fix err
  assume f: "fst (transaction e req w) = Inl err"
  show "db (snd (transaction e req w)) = db w
          \<or> db (snd (transaction e req w)) = db (writeState req w)"
    by (rule transaction_summary[of e req w]) (use f in \<open>auto simp: logQuery_def\<close>)
next
  fix err
  assume f: "fst (transaction e req w) = Inl err" and q: "writers w = []"
  show "db (snd (transaction e req w)) = db w"
    by (rule transaction_summary[of e req w])
       (use f writeState_quiet[OF q, of req] in \<open>auto simp: logQuery_def\<close>)
next
  fix b
  assume f: "fst (transaction e req w) = Inr b"
  show "\<exists>ti row.
           tripInstances (db w) (reqTripInstanceId req) = Some ti
         \<and> tripInstances (db (writeState req w)) (reqTripInstanceId req) = Some row
         \<and> db (snd (transaction e req w)) =
             \<lparr>tripInstances = (tripInstances (db (writeState req w)))(reqTripInstanceId req \<mapsto>
                 row\<lparr>availableSeats := availableSeats ti - int (length (reqPassengers req)),
                     version := version ti + 1\<rparr>),
              bookings = bookings (db (writeState req w)) @ [b]\<rparr>
         \<and> tripInstanceId b = reqTripInstanceId req
         \<and> length (passengers b) = length (reqPassengers req)"
    by (rule transaction_summary[of e req w])
       (use f in \<open>auto simp: bookingData_def\<close>)
next
  fix ti
  assume a: "tripInstances (db w) (reqTripInstanceId req) = Some ti \<and> status ti = ''active''
            \<and> availableSeats ti = 0 \<and> reqPassengers req \<noteq> []"
  then have lt: "availableSeats ti < int (length (reqPassengers req))" by simp
  have d: "String_of_int 0 = ''0''" by (simp add: String_of_int_def)
  from transaction_insufficient[of w req ti e] a lt d
  show "fst (transaction e req w) = Inl (Error ''Only 0 seats available'')"
    by simp
  from transaction_insufficient[of w req ti e] a lt
  show "db (snd (transaction e req w)) = db w"
    by (simp add: logQuery_def)
qed

theorem all_or_nothing_witness:
  "fst (transaction exampleEnv exampleRequest contendedWorld) = Inl (Error ''CONCURRENT_MODIFICATION'')
   \<and> db (snd (transaction exampleEnv exampleRequest contendedWorld))
       = db (writeState exampleRequest contendedWorld)
   \<and> fst (transaction exampleEnv exampleRequest exampleWorld)
       = Inr (bookingData exampleRequest exampleInstance ''SSSSSS'')
   \<and> db (snd (transaction exampleEnv exampleRequest exampleWorld)) =
       \<lparr>tripInstances = [''t1'' \<mapsto> exampleInstance\<lparr>availableSeats := 4, version := 1\<rparr>],
        bookings = [bookingData exampleRequest exampleInstance ''SSSSSS'']\<rparr>
   \<and> fst (transaction exampleEnv exampleRequest collidingWorld)
       = Inl (JsError ''PrismaClientKnownRequestError'' (uniqueConstraintMessage exampleEnv))
   \<and> db (snd (transaction exampleEnv exampleRequest collidingWorld)) = db collidingWorld
   \<and> tripInstances (db soldOutWorld) (reqTripInstanceId exampleRequest) = Some soldOutInstance
   \<and> status soldOutInstance = ''active'' \<and> availableSeats soldOutInstance = 0
   \<and> reqPassengers exampleRequest \<noteq> []
   \<and> fst (transaction exampleEnv exampleRequest soldOutWorld) = Inl (Error ''Only 0 seats available'')
   \<and> db (snd (transaction exampleEnv exampleRequest soldOutWorld)) = db soldOutWorld"
proof -
  have c: "fst (transaction exampleEnv exampleRequest contendedWorld) = Inl (Error ''CONCURRENT_MODIFICATION'')"
    by (simp add: run_defs example_defs)
  have c': "db (snd (transaction exampleEnv exampleRequest contendedWorld)) \<noteq> db contendedWorld"
    by (simp add: run_defs example_defs)
  have s: "fst (transaction exampleEnv exampleRequest exampleWorld)
       = Inr (bookingData exampleRequest exampleInstance ''SSSSSS'')"
    by (simp add: run_defs example_defs)
  have h: "tripInstances (db soldOutWorld) (reqTripInstanceId exampleRequest) = Some soldOutInstance
   \<and> status soldOutInstance = ''active'' \<and> availableSeats soldOutInstance = 0
   \<and> reqPassengers exampleRequest \<noteq> []"
    by (simp add: example_defs)
  have d: "fst (transaction exampleEnv exampleRequest collidingWorld)
       = Inl (JsError ''PrismaClientKnownRequestError'' (uniqueConstraintMessage exampleEnv))"
    by (simp add: run_defs example_defs)
  have q: "writers collidingWorld = []" by (simp add: example_defs)
  note t4 = all_or_nothing[of exampleEnv exampleRequest collidingWorld, THEN conjunct1, rule_format, OF d,
              THEN conjunct2, rule_format, OF q]
  note t1 = all_or_nothing[of exampleEnv exampleRequest contendedWorld, THEN conjunct1, rule_format, OF c, THEN conjunct1]
  note t2 = all_or_nothing[of exampleEnv exampleRequest exampleWorld, THEN conjunct2, THEN conjunct1, rule_format, OF s]
  note t3 = all_or_nothing[of exampleEnv exampleRequest soldOutWorld, THEN conjunct2, THEN conjunct2, rule_format, OF h]
  have a: "db (snd (transaction exampleEnv exampleRequest contendedWorld))
       = db (writeState exampleRequest contendedWorld)"
    using t1 c' by blast
  have b: "db (snd (transaction exampleEnv exampleRequest exampleWorld)) =
       \<lparr>tripInstances = [''t1'' \<mapsto> exampleInstance\<lparr>availableSeats := 4, version := 1\<rparr>],
        bookings = [bookingData exampleRequest exampleInstance ''SSSSSS'']\<rparr>"
    using t2 by (auto simp: example_defs writeState_def otherWritersCommit_def logQuery_def)
  from c a s b d t4 h t3 show ?thesis by blast
qed

text \<open>
  C5 as stated has every request against a trip instance with no seat left fail with the
  capacity error; the status is checked first, so on a trip instance that is not active
  the failure is \<open>Trip is no longer available\<close>.
\<close>

theorem zero_seats_inactive_counterexample:
  "tripInstances (db cancelledWorld) (reqTripInstanceId exampleRequest) = Some cancelledInstance
   \<and> availableSeats cancelledInstance = 0
   \<and> fst (transaction exampleEnv exampleRequest cancelledWorld)
       = Inl (Error ''Trip is no longer available'')
   \<and> fst (transaction exampleEnv exampleRequest cancelledWorld)
       \<noteq> Inl (Error ''Only 0 seats available'')"
  by (simp add: run_defs example_defs)

subsection \<open>The version check at commit\<close>

text \<open>
  C6 (as amended). A transaction reads the trip instance once, as its first store call,
  and never again: after the conditional write it goes on to the reference search and the
  creation of the booking with its passengers without a second read or version test. The
  one version test is the conditional write itself, so a booking is created only when
  the stored version equalled the version read, and the row then carries that version
  plus one.
\<close>

theorem single_version_check:
  "(\<exists>qs. queries (snd (transaction e req w))
            = queries w @ FindUniqueTripInstance (reqTripInstanceId req) # qs
         \<and> \<not> (\<exists>q \<in> set qs. isTripRead q))
   \<and> (\<forall>b. fst (transaction e req w) = Inr b \<longrightarrow>
        (\<exists>ti row cands.
           tripInstances (db w) (reqTripInstanceId req) = Some ti
         \<and> tripInstances (db (writeState req w)) (reqTripInstanceId req) = Some row
         \<and> version row = version ti
         \<and> queries (snd (transaction e req w))
             = queries w @ [FindUniqueTripInstance (reqTripInstanceId req),
                            UpdateManyTripInstance (reqTripInstanceId req) (version ti)]
                 @ map FindUniqueBooking cands @ [CreateBooking (bookingRef b)]
         \<and> b = bookingData req ti (bookingRef b)
         \<and> bookings (db (snd (transaction e req w))) = bookings (db (writeState req w)) @ [b]
         \<and> map_option version (tripInstances (db (snd (transaction e req w))) (reqTripInstanceId req))
             = Some (version row + 1)))"
proof (intro conjI allI impI)
  show "\<exists>qs. queries (snd (transaction e req w))
            = queries w @ FindUniqueTripInstance (reqTripInstanceId req) # qs
         \<and> \<not> (\<exists>q \<in> set qs. isTripRead q)"
  proof (rule transaction_summary[of e req w])
    fix err
    assume "transaction e req w = (Inl err, logQuery (FindUniqueTripInstance (reqTripInstanceId req)) w)"
    then show ?thesis by (intro exI[of _ "[]"]) (simp add: logQuery_def)
  next
    fix ti
    assume "transaction e req w =
         (Inl (Error ''CONCURRENT_MODIFICATION''),
          logQuery (UpdateManyTripInstance (reqTripInstanceId req) (version ti)) (writeState req w))"
    then show ?thesis
      by (intro exI[of _ "[UpdateManyTripInstance (reqTripInstanceId req) (version ti)]"])
         (simp add: logQuery_def writeState_queries)
  next
    fix ti :: tripInstance and r cands w'
    assume "queries w' = queries (writeState req w)
                      @ UpdateManyTripInstance (reqTripInstanceId req) (version ti)
                      # map FindUniqueBooking cands @ [CreateBooking r]"
      and "transaction e req w =
         (Inl (JsError ''PrismaClientKnownRequestError'' (uniqueConstraintMessage e)), w')"
    then show ?thesis
      by (intro exI[of _ "UpdateManyTripInstance (reqTripInstanceId req) (version ti)
                      # map FindUniqueBooking cands @ [CreateBooking r]"])
         (auto simp: writeState_queries)
  next
    fix ti :: tripInstance and r cands w'
    assume "queries w' = queries (writeState req w)
                      @ UpdateManyTripInstance (reqTripInstanceId req) (version ti)
                      # map FindUniqueBooking cands @ [CreateBooking r]"
      and "transaction e req w = (Inr (bookingData req ti r), w')"
    then show ?thesis
      by (intro exI[of _ "UpdateManyTripInstance (reqTripInstanceId req) (version ti)
                      # map FindUniqueBooking cands @ [CreateBooking r]"])
         (auto simp: writeState_queries)
  qed
next
  fix b
  assume f: "fst (transaction e req w) = Inr b"
  show "\<exists>ti row cands.
           tripInstances (db w) (reqTripInstanceId req) = Some ti
         \<and> tripInstances (db (writeState req w)) (reqTripInstanceId req) = Some row
         \<and> version row = version ti
         \<and> queries (snd (transaction e req w))
             = queries w @ [FindUniqueTripInstance (reqTripInstanceId req),
                            UpdateManyTripInstance (reqTripInstanceId req) (version ti)]
                 @ map FindUniqueBooking cands @ [CreateBooking (bookingRef b)]
         \<and> b = bookingData req ti (bookingRef b)
         \<and> bookings (db (snd (transaction e req w))) = bookings (db (writeState req w)) @ [b]
         \<and> map_option version (tripInstances (db (snd (transaction e req w))) (reqTripInstanceId req))
             = Some (version row + 1)"
    by (rule transaction_summary[of e req w])
       (use f in \<open>auto simp: writeState_queries\<close>)
qed

theorem single_version_check_witness:
  "fst (transaction exampleEnv exampleRequest exampleWorld)
     = Inr (bookingData exampleRequest exampleInstance ''SSSSSS'')
   \<and> bookings (db (snd (transaction exampleEnv exampleRequest exampleWorld)))
       = [bookingData exampleRequest exampleInstance ''SSSSSS'']
   \<and> map_option version (tripInstances (db (snd (transaction exampleEnv exampleRequest exampleWorld))) ''t1'')
       = Some 1"
proof -
  have s: "fst (transaction exampleEnv exampleRequest exampleWorld)
       = Inr (bookingData exampleRequest exampleInstance ''SSSSSS'')"
    by (simp add: run_defs example_defs)
  have st: "db (writeState exampleRequest exampleWorld) = exampleDb"
    by (simp add: example_defs writeState_def otherWritersCommit_def logQuery_def)
  from single_version_check[of exampleEnv exampleRequest exampleWorld, THEN conjunct2, rule_format, OF s]
  show ?thesis using s unfolding st by (auto simp: example_defs)
qed

text \<open>
  C6 as stated has the row read again and its version compared after the conditional
  write. The store calls of a successful transaction are the read, the conditional write,
  the reference lookup and the creation: nothing stands between the write and the
  creation but the lookup of the reference.
\<close>

theorem no_recheck_counterexample:
  "fst (transaction exampleEnv exampleRequest exampleWorld)
     = Inr (bookingData exampleRequest exampleInstance ''SSSSSS'')
   \<and> queries (snd (transaction exampleEnv exampleRequest exampleWorld))
       = [FindUniqueTripInstance ''t1'', UpdateManyTripInstance ''t1'' 0,
          FindUniqueBooking ''SSSSSS'', CreateBooking ''SSSSSS'']
   \<and> tripReads (snd (transaction exampleEnv exampleRequest exampleWorld)) = 1"
  by (simp add: run_defs example_defs tripReads_def isTripRead_def)

subsection \<open>Booking references are unique\<close>

text \<open>
  C7 at its failing input. The reference \<open>SSSSSS\<close> is taken, and the generator yields
  \<open>SSSSSS\<close> ten times and \<open>AAAAAA\<close> after that. The search looks \<open>SSSSSS\<close> up ten times
  and finds it each time; the loop then ends, and the eleventh code, \<open>AAAAAA\<close>, goes to
  \<open>booking.create\<close> without a lookup. No failure is raised for the ten collisions: the
  booking is made and the answer is the confirmation.
\<close>

theorem exhaustion_not_fatal:
  "bookingRefs (db collidingWorld) = [''SSSSSS'']
   \<and> fst (transaction lateEnv exampleRequest collidingWorld)
       = Inr (bookingData exampleRequest exampleInstance ''AAAAAA'')
   \<and> queries (snd (transaction lateEnv exampleRequest collidingWorld))
       = [FindUniqueTripInstance ''t1'', UpdateManyTripInstance ''t1'' 0]
           @ replicate 10 (FindUniqueBooking ''SSSSSS'') @ [CreateBooking ''AAAAAA'']
   \<and> bookingRefs (db (snd (transaction lateEnv exampleRequest collidingWorld)))
       = [''SSSSSS'', ''AAAAAA'']
   \<and> fst (POST lateEnv (Inr exampleBody) collidingWorld)
       = NextResponse_json
           (BookingResult ''AAAAAA'' ''Booking confirmed! Your booking reference is AAAAAA'') 200"
proof -
  have t: "fst (transaction lateEnv exampleRequest collidingWorld)
       = Inr (bookingData exampleRequest exampleInstance ''AAAAAA'')"
    "queries (snd (transaction lateEnv exampleRequest collidingWorld))
       = [FindUniqueTripInstance ''t1'', UpdateManyTripInstance ''t1'' 0]
           @ replicate 10 (FindUniqueBooking ''SSSSSS'') @ [CreateBooking ''AAAAAA'']"
    "bookingRefs (db (snd (transaction lateEnv exampleRequest collidingWorld)))
       = [''SSSSSS'', ''AAAAAA'']"
    by (simp_all add: run_defs example_defs bookingRefs_def numeral_eq_Suc)
  have r: "bookingRefs (db collidingWorld) = [''SSSSSS'']"
    by (simp add: bookingRefs_def example_defs)
  have b: "bookingSchema lateEnv exampleBody = Inr exampleRequest"
    by (simp add: schema_defs example_defs)
  have du: "\<not> (DATABASE_URL lateEnv = None \<or> DATABASE_URL lateEnv = Some [])"
    by (simp add: lateEnv_def exampleEnv_def)
  define w1 where "w1 = snd (transaction lateEnv exampleRequest collidingWorld)"
  have tr: "transaction lateEnv exampleRequest collidingWorld
      = (Inr (bookingData exampleRequest exampleInstance ''AAAAAA''), w1)"
    using t(1) by (simp add: prod_eq_iff w1_def)
  have l: "bookingLoop lateEnv exampleRequest 3 None collidingWorld
      = (Inr (Some (bookingData exampleRequest exampleInstance ''AAAAAA'')), w1)"
    using bookingLoop_success[of 3 lateEnv exampleRequest collidingWorld, OF _ tr] by simp
  have p: "fst (POST lateEnv (Inr exampleBody) collidingWorld)
       = NextResponse_json
           (BookingResult ''AAAAAA'' ''Booking confirmed! Your booking reference is AAAAAA'') 200"
    by (simp add: POST_def du b l)
  from r t p show ?thesis by simp
qed

text \<open>
  What holds of the references all the same: \<open>booking.create\<close> fails with the store's
  unique-constraint error exactly when the reference exists, that failure rolls the
  transaction back and is answered with status 500, and so in every interleaving of
  booking requests the references stay distinct.
\<close>

lemma references_stay_distinct:
  "(distinct (bookingRefs (db (shared s))) \<longrightarrow>
      distinct (bookingRefs (db (shared (run e evs s)))))
   \<and> (fst (createBooking e b w)
         = Inl (JsError ''PrismaClientKnownRequestError'' (uniqueConstraintMessage e))
       \<longleftrightarrow> bookingRef b \<in> set (bookingRefs (db w)))
   \<and> (bookingRef b \<notin> set (bookingRefs (db w)) \<longrightarrow>
         fst (createBooking e b w) = Inr b
       \<and> bookings (db (snd (createBooking e b w))) = bookings (db w) @ [b])
   \<and> (fst (transaction e req w)
         = Inl (JsError ''PrismaClientKnownRequestError'' (uniqueConstraintMessage e)) \<longrightarrow>
         db (snd (transaction e req w)) = db (writeState req w))
   \<and> caught (JsError ''PrismaClientKnownRequestError'' (uniqueConstraintMessage e))
       = NextResponse_json
           (Thrown (if uniqueConstraintMessage e = [] then ''Internal server error''
                    else uniqueConstraintMessage e)
                   ''PrismaClientKnownRequestError'')
           500"
proof (intro conjI impI)
  assume "distinct (bookingRefs (db (shared s)))"
  then show "distinct (bookingRefs (db (shared (run e evs s))))" by (rule run_distinct)
next
  show "(fst (createBooking e b w)
         = Inl (JsError ''PrismaClientKnownRequestError'' (uniqueConstraintMessage e)))
       = (bookingRef b \<in> set (bookingRefs (db w)))"
    by (simp add: createBooking_def bookingRefs_def Let_def)
next
  assume a: "bookingRef b \<notin> set (bookingRefs (db w))"
  show "fst (createBooking e b w) = Inr b"
    "bookings (db (snd (createBooking e b w))) = bookings (db w) @ [b]"
    using createBooking_created[OF a, of e] by (simp_all add: logQuery_def)
next
  assume a: "fst (transaction e req w)
         = Inl (JsError ''PrismaClientKnownRequestError'' (uniqueConstraintMessage e))"
  show "db (snd (transaction e req w)) = db (writeState req w)"
    by (rule transaction_summary[of e req w])
       (use a in \<open>auto simp: Error_def logQuery_def\<close>)
next
  show "caught (JsError ''PrismaClientKnownRequestError'' (uniqueConstraintMessage e))
       = NextResponse_json
           (Thrown (if uniqueConstraintMessage e = [] then ''Internal server error''
                    else uniqueConstraintMessage e)
                   ''PrismaClientKnownRequestError'')
           500"
    by (simp add: caught_def)
qed

subsection \<open>Format of a booking reference\<close>

text \<open>
  C8 (as amended). Whatever \<open>Math.random()\<close> returns (a number from 0 up to but excluding 1),
  \<open>generateBookingRef\<close> returns a code of exactly 6 characters, each drawn from the alphabet
  \<open>ABCDEFGHJKLMNPQRSTUVWXYZ23456789\<close>. The alphabet has 32 distinct symbols, from which
  \<open>0\<close>, \<open>O\<close>, \<open>1\<close> and \<open>I\<close> are excluded.
\<close>

theorem generateBookingRef_format:
  assumes "\<forall>k. 0 \<le> random e k \<and> random e k < 1"
  shows "length (fst (generateBookingRef e w)) = 6
    \<and> set (fst (generateBookingRef e w)) \<subseteq> set chars
    \<and> length chars = 32 \<and> distinct chars
    \<and> set chars \<inter> set ''0O1I'' = {}"
proof -
  from generateBookingRef_loop_shape[OF assms, of 0 "[]" w]
  obtain suffix where "fst (generateBookingRef e w) = suffix" "length suffix = 6"
    "set suffix \<subseteq> set chars"
    by (auto simp: generateBookingRef_def)
  moreover have "length chars = 32" by (simp add: chars_def)
  moreover have "distinct chars" by (simp add: chars_def)
  moreover have "set chars \<inter> set ''0O1I'' = {}" by (simp add: chars_def)
  ultimately show ?thesis by simp
qed

theorem generateBookingRef_format_witness:
  "(\<forall>k. 0 \<le> random exampleEnv k \<and> random exampleEnv k < 1)
   \<and> length (fst (generateBookingRef exampleEnv exampleWorld)) = 6
   \<and> set (fst (generateBookingRef exampleEnv exampleWorld)) \<subseteq> set chars"
proof -
  have h: "\<forall>k. 0 \<le> random exampleEnv k \<and> random exampleEnv k < 1"
    by (simp add: exampleEnv_def)
  show ?thesis using h generateBookingRef_format[OF h, of exampleWorld] by simp
qed

text \<open>
  C8 as stated gives the alphabet 33 symbols; the alphabet of the code has 32.
\<close>

theorem alphabet_size_counterexample: "\<not> (length chars = 33 \<or> card (set chars) = 33)"
proof -
  have "distinct chars" by (simp add: chars_def)
  then have "card (set chars) = length chars" by (rule distinct_card)
  moreover have "length chars = 32" by (simp add: chars_def)
  ultimately show ?thesis by simp
qed

subsection \<open>Cancellation\<close>

text \<open>
  C9. Cancelling a confirmed booking of N passengers, with no other request committing
  meanwhile, succeeds at the first try: the booking, and no other, is marked cancelled and
  stamped with the time, and in the same step its trip instance gets exactly N seats more
  and a version one higher, every other trip instance staying as it was; the seats of
  confirmed bookings go down by N. In general an attempt succeeds only when the stored
  version is the one it read, and then adds N to the stored seats and one to the stored
  version; an attempt that fails keeps none of its writes, and one that fails on the
  version is run again after 100 ms. After the cancellation a reservation for up to the
  seats then available, on the active trip instance, with no competing commit and a
  reference that is free, succeeds and takes its seats. A reservation followed by the
  cancellation of the booking it made leaves the available seats as they were before
  the reservation, the version two higher.
\<close>

theorem cancellation_symmetry:
  "(confirmedBooking r (db w) = Some b \<and> tripInstances (db w) (tripInstanceId b) = Some ti
      \<and> writers w = [] \<longrightarrow>
      cancelBooking r now w =
        (Inr (cancelled now b),
         w\<lparr>db := \<lparr>tripInstances = (tripInstances (db w))(tripInstanceId b \<mapsto>
                     ti\<lparr>availableSeats := availableSeats ti + int (length (passengers b)),
                        version := version ti + 1\<rparr>),
                   bookings = markCancelled r now (bookings (db w))\<rparr>\<rparr>)
    \<and> (\<exists>bs1 bs2. bookings (db w) = bs1 @ b # bs2
          \<and> markCancelled r now (bookings (db w)) = bs1 @ cancelled now b # bs2)
    \<and> bookingStatus (cancelled now b) = ''cancelled'' \<and> cancelledAt (cancelled now b) = Some now
    \<and> passengers (cancelled now b) = passengers b
    \<and> bookedSeats (db (snd (cancelBooking r now w))) (tripInstanceId b)
        = bookedSeats (db w) (tripInstanceId b) - int (length (passengers b))
    \<and> (\<forall>e req. reqTripInstanceId req = tripInstanceId b \<and> status ti = ''active''
           \<and> int (length (reqPassengers req))
               \<le> availableSeats ti + int (length (passengers b))
           \<and> chosenRef e req
                (ti\<lparr>availableSeats := availableSeats ti + int (length (passengers b)),
                    version := version ti + 1\<rparr>)
                (snd (cancelBooking r now w))
               \<notin> set (bookingRefs (db w)) \<longrightarrow>
           (\<exists>bk. fst (transaction e req (snd (cancelBooking r now w))) = Inr bk)
         \<and> tripInstances (db (snd (transaction e req (snd (cancelBooking r now w)))))
               (tripInstanceId b)
             = Some (ti\<lparr>availableSeats :=
                           availableSeats ti + int (length (passengers b))
                             - int (length (reqPassengers req)),
                         version := version ti + 2\<rparr>)))
   \<and> (\<forall>b'. fst (cancelAttempt r now w) = Inr b' \<longrightarrow>
        (\<exists>b ti row. confirmedBooking r (db w) = Some b \<and> b' = cancelled now b
           \<and> tripInstances (db w) (tripInstanceId b) = Some ti
           \<and> tripInstances (db (otherWritersCommit w)) (tripInstanceId b) = Some row
           \<and> version row = version ti
           \<and> db (snd (cancelAttempt r now w)) =
               \<lparr>tripInstances = (tripInstances (db (otherWritersCommit w)))(tripInstanceId b \<mapsto>
                   row\<lparr>availableSeats := availableSeats row + int (length (passengers b)),
                       version := version row + 1\<rparr>),
                bookings = markCancelled r now (bookings (db (otherWritersCommit w)))\<rparr>))
   \<and> (\<forall>f. fst (cancelAttempt r now w) = Inl f \<longrightarrow>
        db (snd (cancelAttempt r now w)) = db w
      \<or> db (snd (cancelAttempt r now w)) = db (otherWritersCommit w))
   \<and> (fst (cancelAttempt r now w) = Inl VersionConflict \<longrightarrow>
        cancelBooking r now w
          = withRetry 2 100 (cancelAttempt r now) (setTimeout 100 (snd (cancelAttempt r now w))))
   \<and> (fst (transaction e rq w0) = Inr bk \<and> writers w0 = [] \<longrightarrow>
        (\<exists>t0 w2. tripInstances (db w0) (reqTripInstanceId rq) = Some t0
           \<and> cancelBooking (bookingRef bk) now (snd (transaction e rq w0))
               = (Inr (cancelled now bk), w2)
           \<and> tripInstances (db w2) (reqTripInstanceId rq)
               = Some (t0\<lparr>version := version t0 + 2\<rparr>)))"
proof (intro conjI)
  show "confirmedBooking r (db w) = Some b \<and> tripInstances (db w) (tripInstanceId b) = Some ti
      \<and> writers w = [] \<longrightarrow>
      cancelBooking r now w =
        (Inr (cancelled now b),
         w\<lparr>db := \<lparr>tripInstances = (tripInstances (db w))(tripInstanceId b \<mapsto>
                     ti\<lparr>availableSeats := availableSeats ti + int (length (passengers b)),
                        version := version ti + 1\<rparr>),
                   bookings = markCancelled r now (bookings (db w))\<rparr>\<rparr>)
    \<and> (\<exists>bs1 bs2. bookings (db w) = bs1 @ b # bs2
          \<and> markCancelled r now (bookings (db w)) = bs1 @ cancelled now b # bs2)
    \<and> bookingStatus (cancelled now b) = ''cancelled'' \<and> cancelledAt (cancelled now b) = Some now
    \<and> passengers (cancelled now b) = passengers b
    \<and> bookedSeats (db (snd (cancelBooking r now w))) (tripInstanceId b)
        = bookedSeats (db w) (tripInstanceId b) - int (length (passengers b))
    \<and> (\<forall>e req. reqTripInstanceId req = tripInstanceId b \<and> status ti = ''active''
           \<and> int (length (reqPassengers req))
               \<le> availableSeats ti + int (length (passengers b))
           \<and> chosenRef e req
                (ti\<lparr>availableSeats := availableSeats ti + int (length (passengers b)),
                    version := version ti + 1\<rparr>)
                (snd (cancelBooking r now w))
               \<notin> set (bookingRefs (db w)) \<longrightarrow>
           (\<exists>bk. fst (transaction e req (snd (cancelBooking r now w))) = Inr bk)
         \<and> tripInstances (db (snd (transaction e req (snd (cancelBooking r now w)))))
               (tripInstanceId b)
             = Some (ti\<lparr>availableSeats :=
                           availableSeats ti + int (length (passengers b))
                             - int (length (reqPassengers req)),
                         version := version ti + 2\<rparr>))"
  proof (intro impI)
    assume a: "confirmedBooking r (db w) = Some b \<and> tripInstances (db w) (tripInstanceId b) = Some ti
      \<and> writers w = []"
    let ?i = "tripInstanceId b"
    let ?N = "int (length (passengers b))"
    let ?ti' = "ti\<lparr>availableSeats := availableSeats ti + ?N, version := version ti + 1\<rparr>"
    let ?w' = "w\<lparr>db := \<lparr>tripInstances = (tripInstances (db w))(?i \<mapsto> ?ti'),
                   bookings = markCancelled r now (bookings (db w))\<rparr>\<rparr>"
    from a have b: "confirmedBooking r (db w) = Some b"
      and ti: "tripInstances (db w) ?i = Some ti" and q: "writers w = []" by simp_all
    have c: "cancelBooking r now w = (Inr (cancelled now b), ?w')"
      by (rule cancelBooking_quiet[OF b ti q])
    have conf: "bookingRef b = r \<and> bookingStatus b = ''confirmed''"
      using b find_confirmed[of r "bookings (db w)" b] by (simp add: confirmedBooking_def)
    from markCancelled_found[of r "bookings (db w)" b now] b obtain bs1 bs2 where
      m: "bookings (db w) = bs1 @ b # bs2"
      "markCancelled r now (bookings (db w)) = bs1 @ cancelled now b # bs2"
      by (auto simp: confirmedBooking_def)
    have bs: "bookedSeats (db ?w') ?i = bookedSeats (db w) ?i - ?N"
      using bookedSeats_after_cancel[OF m(1) conjunct2[OF conf], of "db ?w'" now ?i]
      by (simp add: m(2))
    have refs: "bookingRefs (db ?w') = bookingRefs (db w)"
      by (simp add: bookingRefs_def markCancelled_refs)
    have q': "writers ?w' = []" using q by simp
    have res: "(\<exists>bk. fst (transaction e req ?w') = Inr bk)
         \<and> tripInstances (db (snd (transaction e req ?w'))) ?i
             = Some (ti\<lparr>availableSeats := availableSeats ti + ?N - int (length (reqPassengers req)),
                         version := version ti + 2\<rparr>)"
      if h: "reqTripInstanceId req = ?i \<and> status ti = ''active''
           \<and> int (length (reqPassengers req)) \<le> availableSeats ti + ?N
           \<and> chosenRef e req ?ti' ?w' \<notin> set (bookingRefs (db w))"
      for e req
    proof -
      have r1: "tripInstances (db ?w') (reqTripInstanceId req) = Some ?ti'" using h by simp
      have act: "status ?ti' = ''active''" using h by simp
      have cap: "int (length (reqPassengers req)) \<le> availableSeats ?ti'" using h by simp
      have ws: "db (writeState req ?w') = db ?w'" using writeState_quiet[OF q', of req] by simp
      have r2: "tripInstances (db (writeState req ?w')) (reqTripInstanceId req) = Some ?ti'"
        unfolding ws by (rule r1)
      have fresh: "chosenRef e req ?ti' ?w' \<notin> set (bookingRefs (db (writeState req ?w')))"
        unfolding ws refs using h by simp
      from transaction_matched(1)[OF r1 act cap r2 refl fresh, of ]
      have t: "fst (transaction e req ?w') = Inr (bookingData req ?ti' (chosenRef e req ?ti' ?w'))"
        "db (snd (transaction e req ?w')) =
           (db (writtenState req ?ti' ?w'))\<lparr>bookings :=
              bookings (db (writeState req ?w')) @ [bookingData req ?ti' (chosenRef e req ?ti' ?w')]\<rparr>"
        by simp_all
      have "tripInstances (db (writtenState req ?ti' ?w')) (reqTripInstanceId req)
          = Some (?ti'\<lparr>availableSeats := availableSeats ?ti' - int (length (reqPassengers req)),
                       version := version ?ti' + 1\<rparr>)"
        using r2 by (simp add: writtenState_def conditionalWrite_db)
      then have "tripInstances (db (snd (transaction e req ?w'))) ?i
             = Some (ti\<lparr>availableSeats := availableSeats ti + ?N - int (length (reqPassengers req)),
                         version := version ti + 2\<rparr>)"
        unfolding t(2) using h by simp
      then show ?thesis using t(1) by blast
    qed
    show "cancelBooking r now w = (Inr (cancelled now b), ?w')
    \<and> (\<exists>bs1 bs2. bookings (db w) = bs1 @ b # bs2
          \<and> markCancelled r now (bookings (db w)) = bs1 @ cancelled now b # bs2)
    \<and> bookingStatus (cancelled now b) = ''cancelled'' \<and> cancelledAt (cancelled now b) = Some now
    \<and> passengers (cancelled now b) = passengers b
    \<and> bookedSeats (db (snd (cancelBooking r now w))) ?i = bookedSeats (db w) ?i - ?N
    \<and> (\<forall>e req. reqTripInstanceId req = ?i \<and> status ti = ''active''
           \<and> int (length (reqPassengers req)) \<le> availableSeats ti + ?N
           \<and> chosenRef e req ?ti' (snd (cancelBooking r now w)) \<notin> set (bookingRefs (db w)) \<longrightarrow>
           (\<exists>bk. fst (transaction e req (snd (cancelBooking r now w))) = Inr bk)
         \<and> tripInstances (db (snd (transaction e req (snd (cancelBooking r now w))))) ?i
             = Some (ti\<lparr>availableSeats := availableSeats ti + ?N - int (length (reqPassengers req)),
                         version := version ti + 2\<rparr>))"
      unfolding c snd_conv
      using m bs res by (intro conjI allI impI) (simp_all add: cancelled_def, blast)
  qed
next
  show "\<forall>b'. fst (cancelAttempt r now w) = Inr b' \<longrightarrow>
        (\<exists>b ti row. confirmedBooking r (db w) = Some b \<and> b' = cancelled now b
           \<and> tripInstances (db w) (tripInstanceId b) = Some ti
           \<and> tripInstances (db (otherWritersCommit w)) (tripInstanceId b) = Some row
           \<and> version row = version ti
           \<and> db (snd (cancelAttempt r now w)) =
               \<lparr>tripInstances = (tripInstances (db (otherWritersCommit w)))(tripInstanceId b \<mapsto>
                   row\<lparr>availableSeats := availableSeats row + int (length (passengers b)),
                       version := version row + 1\<rparr>),
                bookings = markCancelled r now (bookings (db (otherWritersCommit w)))\<rparr>)"
    by (rule cancelAttempt_cases[of r now w]) auto
next
  show "\<forall>f. fst (cancelAttempt r now w) = Inl f \<longrightarrow>
        db (snd (cancelAttempt r now w)) = db w
      \<or> db (snd (cancelAttempt r now w)) = db (otherWritersCommit w)"
    by (rule cancelAttempt_cases[of r now w]) auto
next
  show "fst (cancelAttempt r now w) = Inl VersionConflict \<longrightarrow>
        cancelBooking r now w
          = withRetry 2 100 (cancelAttempt r now) (setTimeout 100 (snd (cancelAttempt r now w)))"
  proof
    assume "fst (cancelAttempt r now w) = Inl VersionConflict"
    then have "cancelAttempt r now w = (Inl VersionConflict, snd (cancelAttempt r now w))"
      by (simp add: prod_eq_iff)
    from withRetry_again[where operation = "cancelAttempt r now" and w = w
           and ?w1.0 = "snd (cancelAttempt r now w)" and n = 2 and baseDelay = 100, OF this]
    show "cancelBooking r now w
          = withRetry 2 100 (cancelAttempt r now) (setTimeout 100 (snd (cancelAttempt r now w)))"
      by (simp add: cancelBooking_def numeral_3_eq_3)
  qed
next
  show "fst (transaction e rq w0) = Inr bk \<and> writers w0 = [] \<longrightarrow>
        (\<exists>t0 w2. tripInstances (db w0) (reqTripInstanceId rq) = Some t0
           \<and> cancelBooking (bookingRef bk) now (snd (transaction e rq w0))
               = (Inr (cancelled now bk), w2)
           \<and> tripInstances (db w2) (reqTripInstanceId rq)
               = Some (t0\<lparr>version := version t0 + 2\<rparr>))"
  proof
    assume a: "fst (transaction e rq w0) = Inr bk \<and> writers w0 = []"
    then have q: "db (writeState rq w0) = db w0" "writers (writeState rq w0) = []"
      using writeState_quiet[of w0 rq] by simp_all
    show "\<exists>t0 w2. tripInstances (db w0) (reqTripInstanceId rq) = Some t0
           \<and> cancelBooking (bookingRef bk) now (snd (transaction e rq w0))
               = (Inr (cancelled now bk), w2)
           \<and> tripInstances (db w2) (reqTripInstanceId rq)
               = Some (t0\<lparr>version := version t0 + 2\<rparr>)"
    proof (rule transaction_summary[of e rq w0])
      fix err
      assume "transaction e rq w0 = (Inl err, logQuery (FindUniqueTripInstance (reqTripInstanceId rq)) w0)"
      then show ?thesis using a by simp
    next
      fix ti
      assume "transaction e rq w0 =
         (Inl (Error ''CONCURRENT_MODIFICATION''),
          logQuery (UpdateManyTripInstance (reqTripInstanceId rq) (version ti)) (writeState rq w0))"
      then show ?thesis using a by simp
    next
      fix w'
      assume "transaction e rq w0 =
         (Inl (JsError ''PrismaClientKnownRequestError'' (uniqueConstraintMessage e)), w')"
      then show ?thesis using a by simp
    next
      fix ti row r cands w'
      assume ti: "tripInstances (db w0) (reqTripInstanceId rq) = Some ti"
        and row: "tripInstances (db (writeState rq w0)) (reqTripInstanceId rq) = Some row"
        and fresh: "r \<notin> set (bookingRefs (db (writeState rq w0)))"
        and t: "transaction e rq w0 = (Inr (bookingData rq ti r), w')"
        and d: "db w' = \<lparr>tripInstances = (tripInstances (db (writeState rq w0)))(reqTripInstanceId rq \<mapsto>
                   row\<lparr>availableSeats := availableSeats ti - int (length (reqPassengers rq)),
                       version := version ti + 1\<rparr>),
                bookings = bookings (db (writeState rq w0)) @ [bookingData rq ti r]\<rparr>"
        and wr: "writers w' = writers (writeState rq w0)"
      have same: "row = ti" using ti row q by simp
      have bk: "bk = bookingData rq ti r" using a t by simp
      let ?row' = "ti\<lparr>availableSeats := availableSeats ti - int (length (reqPassengers rq)),
                       version := version ti + 1\<rparr>"
      have f: "confirmedBooking r (db w') = Some (bookingData rq ti r)"
        unfolding d confirmedBooking_def
        using fresh find_append_fresh_confirmed[of r "bookings (db (writeState rq w0))" "bookingData rq ti r"]
        by (simp add: bookingRefs_def)
      have r': "tripInstances (db w') (tripInstanceId (bookingData rq ti r)) = Some ?row'"
        unfolding d same by simp
      have qw: "writers w' = []" using wr q by simp
      note c = cancelBooking_quiet[OF f r' qw, of now]
      show ?thesis
        unfolding t snd_conv bk bookingRef_bookingData
        using ti c by (intro exI[of _ ti]) simp
    qed
  qed
qed

theorem cancellation_symmetry_witness:
  "confirmedBooking ''SSSSSS'' (db fullWorld) = Some takenBooking
   \<and> tripInstances (db fullWorld) (tripInstanceId takenBooking) = Some soldOutInstance
   \<and> writers fullWorld = []
   \<and> fst (transaction variedEnv exampleRequest fullWorld) = Inl (Error ''Only 0 seats available'')
   \<and> fst (cancelBooking ''SSSSSS'' 42 fullWorld) = Inr (cancelled 42 takenBooking)
   \<and> db (snd (cancelBooking ''SSSSSS'' 42 fullWorld))
       = \<lparr>tripInstances = [''t1'' \<mapsto> soldOutInstance\<lparr>availableSeats := 1, version := 1\<rparr>],
          bookings = [cancelled 42 takenBooking]\<rparr>
   \<and> fst (transaction variedEnv exampleRequest (snd (cancelBooking ''SSSSSS'' 42 fullWorld)))
       = Inr (bookingData exampleRequest (soldOutInstance\<lparr>availableSeats := 1, version := 1\<rparr>)
                ''ABCDEF'')
   \<and> tripInstances
         (db (snd (transaction variedEnv exampleRequest (snd (cancelBooking ''SSSSSS'' 42 fullWorld)))))
         ''t1''
       = Some (soldOutInstance\<lparr>availableSeats := 0, version := 2\<rparr>)
   \<and> fst (transaction exampleEnv exampleRequest exampleWorld)
       = Inr (bookingData exampleRequest exampleInstance ''SSSSSS'')
   \<and> tripInstances
         (db (snd (cancelBooking ''SSSSSS'' 42 (snd (transaction exampleEnv exampleRequest exampleWorld)))))
         ''t1''
       = Some (exampleInstance\<lparr>version := 2\<rparr>)"
proof -
  have h: "confirmedBooking ''SSSSSS'' (db fullWorld) = Some takenBooking
   \<and> tripInstances (db fullWorld) (tripInstanceId takenBooking) = Some soldOutInstance
   \<and> writers fullWorld = []"
    by (simp add: confirmedBooking_def example_defs)
  have before: "fst (transaction variedEnv exampleRequest fullWorld) = Inl (Error ''Only 0 seats available'')"
    by (simp add: run_defs example_defs String_of_int_def)
  note c = cancellation_symmetry[where r = "''SSSSSS''" and w = fullWorld and b = takenBooking
             and ti = soldOutInstance and now = 42, THEN conjunct1, rule_format, OF h]
  define after where "after =
     fullWorld\<lparr>db := \<lparr>tripInstances = [''t1'' \<mapsto> soldOutInstance\<lparr>availableSeats := 1, version := 1\<rparr>],
                        bookings = [cancelled 42 takenBooking]\<rparr>\<rparr>"
  have cs: "cancelBooking ''SSSSSS'' 42 fullWorld = (Inr (cancelled 42 takenBooking), after)"
    using c[THEN conjunct1] unfolding after_def by (simp add: example_defs cancelled_def)
  have c1: "fst (cancelBooking ''SSSSSS'' 42 fullWorld) = Inr (cancelled 42 takenBooking)"
    unfolding cs by simp
  have c2: "db (snd (cancelBooking ''SSSSSS'' 42 fullWorld))
       = \<lparr>tripInstances = [''t1'' \<mapsto> soldOutInstance\<lparr>availableSeats := 1, version := 1\<rparr>],
          bookings = [cancelled 42 takenBooking]\<rparr>"
    unfolding cs by (simp add: after_def)
  have after: "fst (transaction variedEnv exampleRequest (snd (cancelBooking ''SSSSSS'' 42 fullWorld)))
       = Inr (bookingData exampleRequest (soldOutInstance\<lparr>availableSeats := 1, version := 1\<rparr>)
                ''ABCDEF'')"
    unfolding cs snd_conv after_def by (simp add: run_defs example_defs cancelled_def)
  have hyp: "reqTripInstanceId exampleRequest = tripInstanceId takenBooking
      \<and> status soldOutInstance = ''active''
      \<and> int (length (reqPassengers exampleRequest))
          \<le> availableSeats soldOutInstance + int (length (passengers takenBooking))
      \<and> chosenRef variedEnv exampleRequest
           (soldOutInstance\<lparr>availableSeats :=
               availableSeats soldOutInstance + int (length (passengers takenBooking)),
               version := version soldOutInstance + 1\<rparr>)
           (snd (cancelBooking ''SSSSSS'' 42 fullWorld))
          \<notin> set (bookingRefs (db fullWorld))"
    unfolding cs snd_conv after_def
    by (simp add: run_defs example_defs bookingRefs_def cancelled_def)
  note d = c[THEN conjunct2, THEN conjunct2, THEN conjunct2, THEN conjunct2, THEN conjunct2,
             THEN conjunct2, rule_format, OF hyp, THEN conjunct2]
  have after2: "tripInstances
         (db (snd (transaction variedEnv exampleRequest (snd (cancelBooking ''SSSSSS'' 42 fullWorld)))))
         ''t1''
       = Some (soldOutInstance\<lparr>availableSeats := 0, version := 2\<rparr>)"
    using d by (simp add: example_defs)
  have g: "fst (transaction exampleEnv exampleRequest exampleWorld)
       = Inr (bookingData exampleRequest exampleInstance ''SSSSSS'') \<and> writers exampleWorld = []"
    by (simp add: run_defs example_defs)
  have t0: "tripInstances (db exampleWorld) (reqTripInstanceId exampleRequest) = Some exampleInstance"
    by (simp add: example_defs)
  from cancellation_symmetry[where e = exampleEnv and rq = exampleRequest and ?w0.0 = exampleWorld
         and now = 42, THEN conjunct2, THEN conjunct2, THEN conjunct2, THEN conjunct2, rule_format, OF g]
  obtain t w2 where r: "tripInstances (db exampleWorld) (reqTripInstanceId exampleRequest) = Some t"
    "cancelBooking (bookingRef (bookingData exampleRequest exampleInstance ''SSSSSS'')) 42
        (snd (transaction exampleEnv exampleRequest exampleWorld))
       = (Inr (cancelled 42 (bookingData exampleRequest exampleInstance ''SSSSSS'')), w2)"
    "tripInstances (db w2) (reqTripInstanceId exampleRequest) = Some (t\<lparr>version := version t + 2\<rparr>)"
    by blast
  from r(1) t0 have "t = exampleInstance" by simp
  with r(2,3) have rt: "tripInstances
         (db (snd (cancelBooking ''SSSSSS'' 42 (snd (transaction exampleEnv exampleRequest exampleWorld)))))
         ''t1''
       = Some (exampleInstance\<lparr>version := 2\<rparr>)"
    by (simp add: exampleRequest_def exampleInstance_def)
  from h before c1 c2 after after2 g rt show ?thesis by simp
qed

subsection \<open>Validation\<close>

text \<open>
  C10 (as amended). A body that the booking schema rejects never reaches the store: with
  \<open>DATABASE_URL\<close> set the answer is status 400, \<open>Invalid request\<close>, with the issues found,
  and the state is the one before the call: no store call is made, no trip instance,
  booking or passenger changes. Without \<open>DATABASE_URL\<close>, or with an empty one, the answer
  to any request is status 500 with the configuration error, and the state is untouched
  all the same. The schema rejects a body whose
  passenger list is empty, whose trip instance identifier is the empty string, whose
  contact e-mail fails the e-mail test, or whose contact phone is the empty string.
\<close>

theorem rejected_body_changes_nothing:
  "(bookingSchema e json = Inl issues \<and> DATABASE_URL e = Some url \<and> url \<noteq> [] \<longrightarrow>
      POST e (Inr json) w
        = (NextResponse_json (InvalidRequest ''Invalid request'' issues) 400, w))
   \<and> (bookingSchema e json = Inl issues \<longrightarrow> snd (POST e (Inr json) w) = w)
   \<and> (property kvs ''passengers'' = Some (JArray []) \<longrightarrow>
        (\<exists>issues. bookingSchema e (JObject kvs) = Inl issues))
   \<and> (property kvs ''tripInstanceId'' = Some (JString []) \<longrightarrow>
        (\<exists>issues. bookingSchema e (JObject kvs) = Inl issues))
   \<and> (property kvs ''contactEmail'' = Some (JString address) \<and> \<not> isEmail e address \<longrightarrow>
        (\<exists>issues. bookingSchema e (JObject kvs) = Inl issues))
   \<and> (property kvs ''contactPhone'' = Some (JString []) \<longrightarrow>
        (\<exists>issues. bookingSchema e (JObject kvs) = Inl issues))
   \<and> (DATABASE_URL e = None \<or> DATABASE_URL e = Some [] \<longrightarrow>
        POST e requestJson w
          = (NextResponse_json
               (ConfigurationError ''Database configuration error''
                  ''DATABASE_URL environment variable is required. Please set it in Vercel environment variables.'')
               500,
             w))"
proof (intro conjI impI)
  assume "bookingSchema e json = Inl issues \<and> DATABASE_URL e = Some url \<and> url \<noteq> []"
  then show "POST e (Inr json) w
        = (NextResponse_json (InvalidRequest ''Invalid request'' issues) 400, w)"
    by (simp add: POST_def)
next
  assume "bookingSchema e json = Inl issues"
  then show "snd (POST e (Inr json) w) = w"
    by (simp add: POST_def)
next
  assume "property kvs ''passengers'' = Some (JArray [])"
  then have "issuesOf (passengerArray e [Key ''passengers''] (property kvs ''passengers'')) \<noteq> []"
    by (simp add: passengerArray_def issuesOf_def)
  then show "\<exists>issues. bookingSchema e (JObject kvs) = Inl issues"
    using bookingSchema_rejects[of kvs e] by blast
next
  assume "property kvs ''tripInstanceId'' = Some (JString [])"
  then have "issuesOf (stringMin1 ''Trip instance ID is required'' [Key ''tripInstanceId'']
                     (property kvs ''tripInstanceId'')) \<noteq> []"
    by (simp add: stringMin1_def issuesOf_def)
  then show "\<exists>issues. bookingSchema e (JObject kvs) = Inl issues"
    using bookingSchema_rejects[of kvs e] by blast
next
  assume "property kvs ''contactEmail'' = Some (JString address) \<and> \<not> isEmail e address"
  then have "issuesOf (stringEmail e ''Valid email is required'' [Key ''contactEmail'']
                      (property kvs ''contactEmail'')) \<noteq> []"
    by (simp add: stringEmail_def issuesOf_def)
  then show "\<exists>issues. bookingSchema e (JObject kvs) = Inl issues"
    using bookingSchema_rejects[of kvs e] by blast
next
  assume "property kvs ''contactPhone'' = Some (JString [])"
  then have "issuesOf (stringMin1 ''Contact phone is required'' [Key ''contactPhone'']
                      (property kvs ''contactPhone'')) \<noteq> []"
    by (simp add: stringMin1_def issuesOf_def)
  then show "\<exists>issues. bookingSchema e (JObject kvs) = Inl issues"
    using bookingSchema_rejects[of kvs e] by blast
next
  assume "DATABASE_URL e = None \<or> DATABASE_URL e = Some []"
  then show "POST e requestJson w
          = (NextResponse_json
               (ConfigurationError ''Database configuration error''
                  ''DATABASE_URL environment variable is required. Please set it in Vercel environment variables.'')
               500,
             w)"
    by (auto simp: POST_def)
qed

theorem rejected_body_changes_nothing_witness:
  "bookingSchema exampleEnv emptyPassengersBody
     = Inl [too_small [Key ''passengers''] ''At least one passenger is required'']
   \<and> DATABASE_URL exampleEnv = Some ''postgresql://localhost/landline''
   \<and> POST exampleEnv (Inr emptyPassengersBody) exampleWorld
       = (NextResponse_json
            (InvalidRequest ''Invalid request''
               [too_small [Key ''passengers''] ''At least one passenger is required''])
            400,
          exampleWorld)"
proof -
  have h: "bookingSchema exampleEnv emptyPassengersBody
     = Inl [too_small [Key ''passengers''] ''At least one passenger is required'']
   \<and> DATABASE_URL exampleEnv = Some ''postgresql://localhost/landline''
   \<and> ''postgresql://localhost/landline'' \<noteq> []"
    by (simp add: schema_defs example_defs)
  from rejected_body_changes_nothing[where e = exampleEnv and json = emptyPassengersBody
         and w = exampleWorld, THEN conjunct1, rule_format, OF h] h
  show ?thesis by simp
qed

text \<open>
  C10 as stated has every rejected body answered with status 400. The test of
  \<open>DATABASE_URL\<close> comes before the validation: without the variable, the same body is
  answered with status 500 and the configuration error.
\<close>

theorem unconfigured_counterexample:
  "bookingSchema unconfiguredEnv emptyPassengersBody
     = Inl [too_small [Key ''passengers''] ''At least one passenger is required'']
   \<and> POST unconfiguredEnv (Inr emptyPassengersBody) exampleWorld
       = (NextResponse_json
            (ConfigurationError ''Database configuration error''
               ''DATABASE_URL environment variable is required. Please set it in Vercel environment variables.'')
            500,
          exampleWorld)"
  by (simp add: schema_defs POST_def example_defs)

end
